theory Spec2Isabelle
  imports Complex_Main "HOL-Library.Stream"
begin

section \<open>The wavefunction of NNQST (wavefunction.hpp)\<close>

text \<open>
  A shallow embedding of class \<open>qst::Wavefunction\<close>. A C++ \<open>double\<close> that comes from
  outside (a model parameter, an entry of a configuration, a value returned by the
  energy model) is a \<open>real\<close>, and \<open>std::complex<double>\<close> is \<open>complex\<close>: rounding is not
  modelled. What is modelled is where the arithmetic of the code leaves the numbers:
  \<open>std::sqrt\<close> of a negative value, \<open>std::log\<close> of a value that is not positive and a
  division by zero give no finite number, and such a result is \<open>None\<close>.
\<close>

subsection \<open>Outcomes of a call\<close>

text \<open>
  The class has no error path: no function throws, returns a status or tests its
  arguments. A call either returns, or it reaches an operation to which C++ gives no
  meaning. The second case is recorded with the operation that was reached:
  \<^item> \<open>BitsetIndex\<close>: \<open>std::bitset<16>::operator[]\<close> at a position of 16 or more;
  \<^item> \<open>ShiftOverflow\<close>: \<open>1<<t\<close> in a 32-bit \<open>int\<close> with \<open>t\<close> of 31 or more, where \<open>2\<^sup>t\<close> is
    not an \<open>int\<close> (for \<open>t = 31\<close> this is the rule of C++11; later standards give a
    negative number there, and for \<open>t\<close> of 32 or more none gives a meaning);
  \<^item> \<open>VectorIndex\<close>: \<open>std::vector::operator[]\<close> past the end;
  \<^item> \<open>EigenIndex\<close>: a coefficient access of an Eigen vector or matrix outside its
    size (an assertion failure that ends the process when Eigen's assertions are
    compiled in, undefined otherwise);
  \<^item> \<open>EigenSize\<close>: an Eigen comma initialiser or \<open>+=\<close> on operands whose sizes differ
    (the same);
  \<^item> \<open>FloatToInt\<close>: \<open>int(x)\<close> on a double whose truncation is not an \<open>int\<close>.
\<close>

datatype ub = BitsetIndex | ShiftOverflow | VectorIndex | EigenIndex | EigenSize | FloatToInt

datatype 'a outcome = Returned 'a | Undefined ub

subsection \<open>Numeric utilities\<close>

text \<open>\<open>inline double ln1pexp(double x)\<close>; \<open>std::log1p(y)\<close> is \<open>ln (1 + y)\<close>.\<close>

definition ln1pexp :: "real \<Rightarrow> real" where
  "ln1pexp x = (if x > 30 then x else ln (1 + exp x))"

text \<open>
  \<open>void ln1pexp(const Eigen::VectorXd & x, Eigen::VectorXd & y)\<close>: the loop
  \<open>for(i=0;i<x.size();i++) y(i)=ln1pexp(x(i))\<close> over the remaining entries \<open>xs\<close> of
  \<open>x\<close>, from index \<open>i\<close>; the returned value is the vector \<open>y\<close> after the call.
\<close>

fun ln1pexp_loop :: "real list \<Rightarrow> nat \<Rightarrow> real list \<Rightarrow> real list outcome" where
  "ln1pexp_loop [] i y = Returned y"
| "ln1pexp_loop (xi # xs) i y =
     (if i < length y then ln1pexp_loop xs (Suc i) (y[i := ln1pexp xi])
      else Undefined EigenIndex)"

definition ln1pexp_vec :: "real list \<Rightarrow> real list \<Rightarrow> real list outcome" where
  "ln1pexp_vec x y = ln1pexp_loop x 0 y"

subsection \<open>Vectors, matrices and the arithmetic of doubles\<close>

text \<open>
  An \<open>Eigen::VectorXd\<close> is the list of its entries and a matrix is the list of its rows;
  a default-constructed matrix (no rows, no columns) is \<open>[]\<close>.
\<close>

type_synonym 'a matrix = "'a list list"

definition rows :: "'a matrix \<Rightarrow> nat" where
  "rows M = length M"

definition cols :: "'a matrix \<Rightarrow> nat" where
  "cols M = (case M of [] \<Rightarrow> 0 | r # _ \<Rightarrow> length r)"

definition rectangular :: "'a matrix \<Rightarrow> bool" where
  "rectangular M = list_all (\<lambda>r. length r = cols M) M"

definition bind_outcome :: "'a outcome \<Rightarrow> ('a \<Rightarrow> 'b outcome) \<Rightarrow> 'b outcome" where
  "bind_outcome x f = (case x of Undefined u \<Rightarrow> Undefined u | Returned a \<Rightarrow> f a)"

text \<open>\<open>x(i)\<close> on a vector and \<open>M(r,c)\<close> on a matrix, with \<open>int\<close> indices.\<close>

definition vcoeff :: "'a list \<Rightarrow> int \<Rightarrow> 'a outcome" where
  "vcoeff x i = (if 0 \<le> i \<and> i < int (length x) then Returned (x ! nat i) else Undefined EigenIndex)"

definition coeff :: "'a matrix \<Rightarrow> int \<Rightarrow> int \<Rightarrow> 'a outcome" where
  "coeff M r c =
     (if 0 \<le> r \<and> r < int (rows M) \<and> 0 \<le> c \<and> c < int (cols M)
      then Returned (M ! nat r ! nat c) else Undefined EigenIndex)"

text \<open>
  \<open>int(x)\<close> on a double truncates towards zero; the conversion is undefined when the
  truncated value is not an \<open>int\<close> of 32 bits.
\<close>

definition int_of_double :: "real \<Rightarrow> int outcome" where
  "int_of_double x =
     (let z = (if 0 \<le> x then \<lfloor>x\<rfloor> else \<lceil>x\<rceil>)
      in if - (2 ^ 31) \<le> z \<and> z < 2 ^ 31 then Returned z else Undefined FloatToInt)"

text \<open>
  The result of arithmetic on doubles: \<open>None\<close> is a result that is not a finite number
  (a NaN, or an infinity). \<open>std::sqrt\<close> of a negative double is a NaN; \<open>std::log\<close> of
  zero is minus infinity and of a negative double a NaN.
\<close>

definition sqrt_double :: "real \<Rightarrow> real option" where
  "sqrt_double x = (if x < 0 then None else Some (sqrt x))"

definition log_double :: "real \<Rightarrow> real option" where
  "log_double x = (if x \<le> 0 then None else Some (ln x))"

text \<open>
  A NaN operand makes the sum and the product a NaN. A quotient with a zero divisor is
  a NaN or an infinity, in each part.
\<close>

definition cadd :: "complex option \<Rightarrow> complex option \<Rightarrow> complex option" where
  "cadd a b = (case a of None \<Rightarrow> None | Some x \<Rightarrow> (case b of None \<Rightarrow> None | Some y \<Rightarrow> Some (x + y)))"

definition cmul :: "complex option \<Rightarrow> complex option \<Rightarrow> complex option" where
  "cmul a b = (case a of None \<Rightarrow> None | Some x \<Rightarrow> (case b of None \<Rightarrow> None | Some y \<Rightarrow> Some (x * y)))"

definition cdiv :: "complex option \<Rightarrow> complex option \<Rightarrow> complex option" where
  "cdiv a b =
     (case a of None \<Rightarrow> None
      | Some x \<Rightarrow> (case b of None \<Rightarrow> None | Some y \<Rightarrow> if y = 0 then None else Some (x / y)))"

subsection \<open>The energy model\<close>

text \<open>
  Modelled from the spec: class \<open>Rbm\<close> is not in \<open>wavefunction.hpp\<close>; the wavefunction
  uses it through the interface of section 6 of the specification. A model owns its
  parameter vector \<open>pars\<close>; what \<open>prob\<close>, \<open>VisEnergyGrad\<close> and \<open>InitRandomPars\<close> compute is
  left open: they are the fields \<open>prob_fn\<close> (a value for the parameters and a
  configuration), \<open>grad_fn\<close> (the entries of the gradient) and \<open>init_fn\<close> (the parameter
  vector drawn for a seed and a scale).
\<close>

record rbm =
  Nvisible :: nat
  pars :: "real list"
  prob_fn :: "real list \<Rightarrow> real list \<Rightarrow> real"
  grad_fn :: "real list \<Rightarrow> real list \<Rightarrow> nat \<Rightarrow> real"
  init_fn :: "int \<Rightarrow> real \<Rightarrow> real list"

text \<open>Modelled from the spec: \<open>Rbm::Npar()\<close>, the parameter count.\<close>

definition Rbm_Npar :: "rbm \<Rightarrow> nat" where
  "Rbm_Npar r = length (pars r)"

text \<open>Modelled from the spec: \<open>Rbm::prob(v)\<close>, a scalar for the configuration \<open>v\<close>.\<close>

definition Rbm_prob :: "rbm \<Rightarrow> real list \<Rightarrow> real" where
  "Rbm_prob r v = prob_fn r (pars r) v"

text \<open>
  Modelled from the spec: \<open>Rbm::VisEnergyGrad(v)\<close>, the gradient with respect to the
  model's own parameters, one entry for each parameter.
\<close>

definition Rbm_VisEnergyGrad :: "rbm \<Rightarrow> real list \<Rightarrow> real list" where
  "Rbm_VisEnergyGrad r v = map (grad_fn r (pars r) v) [0..<Rbm_Npar r]"

text \<open>
  Modelled from the spec: \<open>Rbm::GetParameters()\<close> and \<open>Rbm::SetParameters(vec)\<close>, the
  accessors of the parameter vector.
\<close>

definition Rbm_GetParameters :: "rbm \<Rightarrow> real list" where
  "Rbm_GetParameters r = pars r"

definition Rbm_SetParameters :: "real list \<Rightarrow> rbm \<Rightarrow> rbm" where
  "Rbm_SetParameters p r = r\<lparr>pars := p\<rparr>"

text \<open>
  Modelled from the spec: \<open>Rbm::InitRandomPars(seed, sigma)\<close> reinitialises the
  parameters from a seeded distribution with scale \<open>sigma\<close>.
\<close>

definition Rbm_InitRandomPars :: "int \<Rightarrow> real \<Rightarrow> rbm \<Rightarrow> rbm" where
  "Rbm_InitRandomPars seed sigma r = r\<lparr>pars := init_fn r seed sigma\<rparr>"

subsection \<open>The wavefunction\<close>

text \<open>
  The members of the class (\<open>N_\<close>, \<open>npar_\<close>, \<open>rbmAm_\<close>, \<open>rbmPh_\<close> and \<open>rgen_\<close>, written
  without the underscore). \<open>rgen\<close> is the generator together with the
  \<open>uniform_real_distribution(0,1)\<close> that \<open>SampleLayer\<close> applies to it: the stream of the
  doubles that the successive draws return.
\<close>

record Wavefunction =
  N :: nat
  npar :: nat
  rbmAm :: rbm
  rbmPh :: rbm
  rgen :: "real stream"

text \<open>
  The constructor builds both models from the same \<open>Parameters\<close> object and seeds the
  generator with 13579. \<open>mk\<close> is the constructor of \<open>Rbm\<close> and \<open>mt\<close> gives the draws of a
  generator seeded with a number.
\<close>

definition Wavefunction_new :: "('p \<Rightarrow> rbm) \<Rightarrow> (nat \<Rightarrow> real stream) \<Rightarrow> 'p \<Rightarrow> Wavefunction" where
  "Wavefunction_new mk mt par =
     \<lparr>N = Nvisible (mk par), npar = Rbm_Npar (mk par) + Rbm_Npar (mk par),
      rbmAm = mk par, rbmPh = mk par, rgen = mt 13579\<rparr>"

definition InitRandomPars :: "int \<Rightarrow> real \<Rightarrow> Wavefunction \<Rightarrow> Wavefunction" where
  "InitRandomPars seed sigma W =
     W\<lparr>rbmAm := Rbm_InitRandomPars seed sigma (rbmAm W),
       rbmPh := Rbm_InitRandomPars seed sigma (rbmPh W)\<rparr>"

definition amplitude :: "Wavefunction \<Rightarrow> real list \<Rightarrow> real option" where
  "amplitude W v = sqrt_double (Rbm_prob (rbmAm W) v)"

definition phase :: "Wavefunction \<Rightarrow> real list \<Rightarrow> real option" where
  "phase W v = log_double (Rbm_prob (rbmPh W) v)"

text \<open>\<open>amplitude(v)*exp(0.5*I_*phase(v))\<close>; a factor that is not finite makes it a NaN.\<close>

definition psi :: "Wavefunction \<Rightarrow> real list \<Rightarrow> complex option" where
  "psi W v =
     (case amplitude W v of None \<Rightarrow> None
      | Some a \<Rightarrow> (case phase W v of None \<Rightarrow> None
          | Some p \<Rightarrow> Some (complex_of_real a * exp (complex_of_real (1/2) * \<i> * complex_of_real p))))"

subsection \<open>Sampling one layer\<close>

text \<open>
  The inner loop of \<open>SampleLayer\<close>, \<open>for(i=0;i<hv.cols();i++)\<close>, in row \<open>s\<close>, over the
  remaining columns: \<open>hv(s,i)=distribution(rgen_)<probs(s,i)\<close> takes one draw from
  the generator and stores the comparison, 1 or 0.
\<close>

fun SampleLayer_row ::
  "real matrix \<Rightarrow> nat \<Rightarrow> nat list \<Rightarrow> real matrix \<times> real stream \<Rightarrow> (real matrix \<times> real stream) outcome" where
  "SampleLayer_row probs s [] (hv, g) = Returned (hv, g)"
| "SampleLayer_row probs s (i # is) (hv, g) =
     (case coeff probs (int s) (int i) of
        Undefined u \<Rightarrow> Undefined u
      | Returned p \<Rightarrow>
          SampleLayer_row probs s is (hv[s := (hv ! s)[i := (if shd g < p then 1 else 0)]], stl g))"

text \<open>The outer loop, \<open>for(s=0;s<hv.rows();s++)\<close>, over the remaining rows.\<close>

fun SampleLayer_rows ::
  "real matrix \<Rightarrow> nat \<Rightarrow> nat list \<Rightarrow> real matrix \<times> real stream \<Rightarrow> (real matrix \<times> real stream) outcome" where
  "SampleLayer_rows probs c [] st = Returned st"
| "SampleLayer_rows probs c (s # ss) st =
     (case SampleLayer_row probs s [0..<c] st of
        Undefined u \<Rightarrow> Undefined u
      | Returned st' \<Rightarrow> SampleLayer_rows probs c ss st')"

text \<open>The call returns the matrix \<open>hv\<close> after it and the object with its generator advanced.\<close>

definition SampleLayer ::
  "Wavefunction \<Rightarrow> real matrix \<Rightarrow> real matrix \<Rightarrow> (real matrix \<times> Wavefunction) outcome" where
  "SampleLayer W hv probs =
     (case SampleLayer_rows probs (cols hv) [0..<rows hv] (hv, rgen W) of
        Undefined u \<Rightarrow> Undefined u
      | Returned (hv', g) \<Rightarrow> Returned (hv', W\<lparr>rgen := g\<rparr>))"

subsection \<open>Gradients and parameters\<close>

text \<open>
  \<open>der(npar_); der<<rbmAm_.VisEnergyGrad(v),rbmPh_.VisEnergyGrad(v)\<close>: the comma
  initialiser has to fill the \<open>npar_\<close> entries exactly.
\<close>

definition Grad :: "Wavefunction \<Rightarrow> real list \<Rightarrow> real list outcome" where
  "Grad W v =
     (let a = Rbm_VisEnergyGrad (rbmAm W) v; p = Rbm_VisEnergyGrad (rbmPh W) v
      in if length a + length p = npar W then Returned (a @ p) else Undefined EigenSize)"

definition GetParameters :: "Wavefunction \<Rightarrow> real list outcome" where
  "GetParameters W =
     (let a = Rbm_GetParameters (rbmAm W); p = Rbm_GetParameters (rbmPh W)
      in if length a + length p = npar W then Returned (a @ p) else Undefined EigenSize)"

text \<open>
  The loop of \<open>SetParameters\<close>, \<open>for(i=0;i<npar_/2;i++)\<close>, over the remaining indices,
  with \<open>h\<close> for \<open>npar_/2\<close>: \<open>parsAm(i)=pars(i); parsPh(i)=pars(i+npar_/2)\<close>.
\<close>

fun SetParameters_loop ::
  "real list \<Rightarrow> nat \<Rightarrow> nat list \<Rightarrow> real list \<times> real list \<Rightarrow> (real list \<times> real list) outcome" where
  "SetParameters_loop ps h [] (parsAm, parsPh) = Returned (parsAm, parsPh)"
| "SetParameters_loop ps h (i # is) (parsAm, parsPh) =
     (case vcoeff ps (int i) of
        Undefined u \<Rightarrow> Undefined u
      | Returned a \<Rightarrow>
          (case vcoeff ps (int (i + h)) of
             Undefined u \<Rightarrow> Undefined u
           | Returned b \<Rightarrow> SetParameters_loop ps h is (parsAm[i := a], parsPh[i := b])))"

text \<open>
  \<open>parsAm\<close> and \<open>parsPh\<close> are created with \<open>npar_/2\<close> entries each (the loop writes all of
  them; they start here as zeros) and handed to the two models.
\<close>

definition SetParameters :: "real list \<Rightarrow> Wavefunction \<Rightarrow> Wavefunction outcome" where
  "SetParameters ps W =
     (let h = npar W div 2
      in case SetParameters_loop ps h [0..<h] (replicate h 0, replicate h 0) of
           Undefined u \<Rightarrow> Undefined u
         | Returned (parsAm, parsPh) \<Rightarrow>
             Returned (W\<lparr>rbmAm := Rbm_SetParameters parsAm (rbmAm W),
                         rbmPh := Rbm_SetParameters parsPh (rbmPh W)\<rparr>))"

subsection \<open>The gradient in a rotated basis\<close>

text \<open>
  The unitary table is a \<open>std::map\<close> from labels to matrices. \<open>Unitaries[label]\<close> returns
  the matrix stored under the label; when there is none it first inserts a
  default-constructed matrix under the label and returns that.
\<close>

type_synonym unitaries = "string \<Rightarrow> complex matrix option"

definition map_subscript :: "unitaries \<Rightarrow> string \<Rightarrow> complex matrix \<times> unitaries" where
  "map_subscript m k = (case m k of Some M \<Rightarrow> (M, m) | None \<Rightarrow> ([], m(k \<mapsto> [])))"

text \<open>
  The first loop, \<open>for(j=0;j<N_;j++)\<close> over the remaining sites: a site whose label is not
  \<open>"Z"\<close> is appended to \<open>basisIndex\<close>; \<open>t\<close> is incremented with every append, so it is the
  length of \<open>basisIndex\<close>.
\<close>

fun rotatedGrad_sites :: "string list \<Rightarrow> nat list \<Rightarrow> nat list \<Rightarrow> nat list outcome" where
  "rotatedGrad_sites basis [] basisIndex = Returned basisIndex"
| "rotatedGrad_sites basis (j # js) basisIndex =
     (if j < length basis
      then rotatedGrad_sites basis js (if basis ! j \<noteq> ''Z'' then basisIndex @ [j] else basisIndex)
      else Undefined VectorIndex)"

text \<open>
  \<open>bit = i\<close> keeps the low 16 bits of \<open>i\<close>, and \<open>bit[counter]\<close> reads one of them.
\<close>

definition bitset16 :: "nat \<Rightarrow> nat" where
  "bitset16 i = i mod 2 ^ 16"

definition bitset_test :: "nat \<Rightarrow> nat \<Rightarrow> bool outcome" where
  "bitset_test b pos = (if pos < 16 then Returned (odd (b div 2 ^ pos)) else Undefined BitsetIndex)"

text \<open>
  The loop that builds \<open>v\<close> from \<open>state\<close>, \<open>for(j=0;j<N_;j++)\<close> over the remaining sites:
  at a site whose label is not \<open>"Z"\<close>, \<open>v(j) = bit[counter]; counter++\<close>. The first loop
  has read \<open>basis[j]\<close> for these sites already.
\<close>

fun rotatedGrad_v :: "string list \<Rightarrow> nat \<Rightarrow> nat list \<Rightarrow> nat \<Rightarrow> real list \<Rightarrow> real list outcome" where
  "rotatedGrad_v basis b [] counter v = Returned v"
| "rotatedGrad_v basis b (j # js) counter v =
     (if basis ! j \<noteq> ''Z''
      then (case bitset_test b counter of
              Undefined u \<Rightarrow> Undefined u
            | Returned x \<Rightarrow>
                if j < length v
                then rotatedGrad_v basis b js (Suc counter) (v[j := (if x then 1 else 0)])
                else Undefined EigenIndex)
      else rotatedGrad_v basis b js counter v)"

text \<open>
  The matrix element \<open>M(int(state(k)),int(v(k)))\<close> of one factor of \<open>U\<close>.
\<close>

definition unitary_element :: "complex matrix \<Rightarrow> real list \<Rightarrow> real list \<Rightarrow> nat \<Rightarrow> complex outcome" where
  "unitary_element M state v k =
     bind_outcome (vcoeff state (int k)) (\<lambda>sk.
     bind_outcome (vcoeff v (int k)) (\<lambda>vk.
     bind_outcome (int_of_double sk) (\<lambda>r.
     bind_outcome (int_of_double vk) (\<lambda>c. coeff M r c))))"

text \<open>
  The loop that multiplies \<open>U\<close> up, \<open>for(ii=0;ii<t;ii++)\<close> over the remaining entries of
  \<open>basisIndex\<close>; it returns \<open>U\<close> and the table, in which the lookups may have inserted.
\<close>

fun rotatedGrad_U ::
  "string list \<Rightarrow> real list \<Rightarrow> real list \<Rightarrow> nat list \<Rightarrow> complex \<Rightarrow> unitaries \<Rightarrow> complex outcome \<times> unitaries" where
  "rotatedGrad_U basis state v [] U tab = (Returned U, tab)"
| "rotatedGrad_U basis state v (k # ks) U tab =
     (case map_subscript tab (basis ! k) of
        (M, tab') \<Rightarrow>
          (case unitary_element M state v k of
             Undefined u \<Rightarrow> (Undefined u, tab')
           | Returned m \<Rightarrow> rotatedGrad_U basis state v ks (U * m) tab'))"

text \<open>
  The first part of one pass of the loop over the local Hilbert space, for the index
  \<open>i\<close>: \<open>bit = i; v = state\<close>, the loop that builds \<open>v\<close>, then \<open>U = 1.0\<close> and the loop that
  multiplies \<open>U\<close> up. It gives the \<open>v\<close> and the \<open>U\<close> of the pass.
\<close>

definition rotatedGrad_vU ::
  "Wavefunction \<Rightarrow> string list \<Rightarrow> real list \<Rightarrow> nat list \<Rightarrow> nat \<Rightarrow> unitaries \<Rightarrow>
   (real list \<times> complex) outcome \<times> unitaries" where
  "rotatedGrad_vU W basis state basisIndex i tab =
     (case rotatedGrad_v basis (bitset16 i) [0..<N W] 0 state of
        Undefined u \<Rightarrow> (Undefined u, tab)
      | Returned v \<Rightarrow>
          (case rotatedGrad_U basis state v basisIndex 1 tab of
             (Undefined u, tab') \<Rightarrow> (Undefined u, tab')
           | (Returned U, tab') \<Rightarrow> (Returned (v, U), tab')))"

text \<open>
  One pass of the loop, for the index \<open>i\<close>: \<open>v\<close> and \<open>U\<close> as above, then
  \<open>num += U*Grad(v)*psi(v); den += U*psi(v)\<close>.
\<close>

definition rotatedGrad_step ::
  "Wavefunction \<Rightarrow> string list \<Rightarrow> real list \<Rightarrow> nat list \<Rightarrow> nat \<Rightarrow>
   complex option list \<times> complex option \<Rightarrow> unitaries \<Rightarrow>
   (complex option list \<times> complex option) outcome \<times> unitaries" where
  "rotatedGrad_step W basis state basisIndex i acc tab =
     (case rotatedGrad_vU W basis state basisIndex i tab of
        (Undefined u, tab') \<Rightarrow> (Undefined u, tab')
      | (Returned (v, U), tab') \<Rightarrow>
          (case Grad W v of
             Undefined u \<Rightarrow> (Undefined u, tab')
           | Returned g \<Rightarrow>
               (Returned
                 (map2 (\<lambda>n gk. cadd n (cmul (Some (U * complex_of_real gk)) (psi W v))) (fst acc) g,
                  cadd (snd acc) (cmul (Some U) (psi W v))),
                tab')))"

text \<open>The loop \<open>for(i=0;i<1<<t;i++)\<close>, over the remaining indices.\<close>

fun rotatedGrad_loop ::
  "Wavefunction \<Rightarrow> string list \<Rightarrow> real list \<Rightarrow> nat list \<Rightarrow> nat list \<Rightarrow>
   complex option list \<times> complex option \<Rightarrow> unitaries \<Rightarrow>
   (complex option list \<times> complex option) outcome \<times> unitaries" where
  "rotatedGrad_loop W basis state basisIndex [] acc tab = (Returned acc, tab)"
| "rotatedGrad_loop W basis state basisIndex (i # is) acc tab =
     (case rotatedGrad_step W basis state basisIndex i acc tab of
        (Undefined u, tab') \<Rightarrow> (Undefined u, tab')
      | (Returned acc', tab') \<Rightarrow> rotatedGrad_loop W basis state basisIndex is acc' tab')"

text \<open>
  \<open>rotatedGrad\<close> returns what it has written to \<open>gradR\<close>, \<open>num/den\<close>, and the table
  \<open>Unitaries\<close>, which it holds by reference, as it is when the call ends.
\<close>

definition rotatedGrad ::
  "Wavefunction \<Rightarrow> string list \<Rightarrow> real list \<Rightarrow> unitaries \<Rightarrow> complex option list outcome \<times> unitaries" where
  "rotatedGrad W basis state Unitaries =
     (case rotatedGrad_sites basis [0..<N W] [] of
        Undefined u \<Rightarrow> (Undefined u, Unitaries)
      | Returned basisIndex \<Rightarrow>
          (let t = length basisIndex
           in if 31 \<le> t then (Undefined ShiftOverflow, Unitaries)
              else (case rotatedGrad_loop W basis state basisIndex [0..<2 ^ t]
                           (replicate (npar W) (Some 0), Some 0) Unitaries of
                      (Undefined u, tab) \<Rightarrow> (Undefined u, tab)
                    | (Returned (num, den), tab) \<Rightarrow> (Returned (map (\<lambda>n. cdiv n den) num), tab))))"

subsection \<open>The words of the specification\<close>

text \<open>
  The Bernoulli outcome that the specification gives for a draw \<open>u\<close> and a probability
  \<open>p\<close>: 1 if the draw is less than the probability, else 0.
\<close>

definition bernoulli :: "real \<Rightarrow> real \<Rightarrow> real" where
  "bernoulli u p = (if u < p then 1 else 0)"

text \<open>
  The matrix of \<open>r\<close> rows and \<open>c\<close> columns of the Bernoulli outcomes for the draws \<open>g\<close> and
  the probabilities \<open>probs\<close>, the draws taken row by row: position \<open>(s,i)\<close> has draw
  number \<open>s \<cdot> c + i\<close>.
\<close>

definition sampled :: "real stream \<Rightarrow> real matrix \<Rightarrow> nat \<Rightarrow> nat \<Rightarrow> real matrix" where
  "sampled g probs r c =
     map (\<lambda>s. map (\<lambda>i. bernoulli (g !! (s * c + i)) (probs ! s ! i)) [0..<c]) [0..<r]"

text \<open>
  The rotated-basis estimator in the words of the specification. The rotated sites are
  the sites among the first \<open>n\<close> whose label is not \<open>"Z"\<close>, in site order.
\<close>

definition rotated_sites :: "nat \<Rightarrow> string list \<Rightarrow> nat list" where
  "rotated_sites n basis = filter (\<lambda>j. basis ! j \<noteq> ''Z'') [0..<n]"

text \<open>
  The completion \<open>v\<^sub>y\<close> for the index \<open>y\<close>: equal to \<open>state\<close>, except that the rotated
  sites take the bits of \<open>y\<close>, the first rotated site bit 0, the next one bit 1, and so
  on (a site's bit position is the number of rotated sites before it).
\<close>

definition completion :: "nat \<Rightarrow> string list \<Rightarrow> real list \<Rightarrow> nat \<Rightarrow> real list" where
  "completion n basis state y =
     map (\<lambda>j. if j < n \<and> basis ! j \<noteq> ''Z''
              then (if odd (y div 2 ^ length (rotated_sites j basis)) then 1 else 0)
              else state ! j)
         [0..<length state]"

text \<open>
  The entry of the table's matrix for a label, at the row and the column given by two
  values of a site, each 0 or 1.
\<close>

definition table_entry :: "unitaries \<Rightarrow> string \<Rightarrow> real \<Rightarrow> real \<Rightarrow> complex" where
  "table_entry tab label x y =
     (case tab label of None \<Rightarrow> 0 | Some M \<Rightarrow> M ! nat \<lfloor>x\<rfloor> ! nat \<lfloor>y\<rfloor>)"

text \<open>
  \<open>U\<close> for a completion \<open>v\<close>: the product over the rotated sites, in site order, of
  \<open>UnitaryTable[label of the site](state[site], v[site])\<close>.
\<close>

definition rotation_amplitude :: "unitaries \<Rightarrow> nat \<Rightarrow> string list \<Rightarrow> real list \<Rightarrow> real list \<Rightarrow> complex" where
  "rotation_amplitude tab n basis state v =
     prod_list (map (\<lambda>j. table_entry tab (basis ! j) (state ! j) (v ! j)) (rotated_sites n basis))"

text \<open>The plain gradient: the two models' gradients, the amplitude model's first.\<close>

definition plain_gradient :: "Wavefunction \<Rightarrow> real list \<Rightarrow> real list" where
  "plain_gradient W v = Rbm_VisEnergyGrad (rbmAm W) v @ Rbm_VisEnergyGrad (rbmPh W) v"

text \<open>An accumulator that starts at zero and has the terms added to it in order.\<close>

definition accumulate :: "complex option list \<Rightarrow> complex option" where
  "accumulate xs = foldl cadd (Some 0) xs"

text \<open>
  The terms for the index \<open>y\<close>: \<open>U(y) \<cdot> psi(v\<^sub>y)\<close> for the denominator and
  \<open>U(y) \<cdot> Grad(v\<^sub>y)\<^sub>k \<cdot> psi(v\<^sub>y)\<close> for entry \<open>k\<close> of the numerator.
\<close>

definition den_term :: "Wavefunction \<Rightarrow> unitaries \<Rightarrow> string list \<Rightarrow> real list \<Rightarrow> nat \<Rightarrow> complex option" where
  "den_term W tab basis state y =
     cmul (Some (rotation_amplitude tab (N W) basis state (completion (N W) basis state y)))
          (psi W (completion (N W) basis state y))"

definition num_term :: "Wavefunction \<Rightarrow> unitaries \<Rightarrow> string list \<Rightarrow> real list \<Rightarrow> nat \<Rightarrow> nat \<Rightarrow> complex option" where
  "num_term W tab basis state k y =
     cmul (Some (rotation_amplitude tab (N W) basis state (completion (N W) basis state y) *
                 complex_of_real (plain_gradient W (completion (N W) basis state y) ! k)))
          (psi W (completion (N W) basis state y))"

text \<open>
  The denominator and entry \<open>k\<close> of the numerator: the terms for the indices \<open>y\<close> from 0
  to \<open>2\<^sup>t - 1\<close>, accumulated in this order, where \<open>t\<close> is the number of rotated sites.
\<close>

definition denominator :: "Wavefunction \<Rightarrow> unitaries \<Rightarrow> string list \<Rightarrow> real list \<Rightarrow> complex option" where
  "denominator W tab basis state =
     accumulate (map (den_term W tab basis state) [0..<2 ^ length (rotated_sites (N W) basis)])"

definition numerator :: "Wavefunction \<Rightarrow> unitaries \<Rightarrow> string list \<Rightarrow> real list \<Rightarrow> nat \<Rightarrow> complex option" where
  "numerator W tab basis state k =
     accumulate (map (num_term W tab basis state k) [0..<2 ^ length (rotated_sites (N W) basis)])"

text \<open>The estimator: entry \<open>k\<close> of \<open>gradR\<close> is numerator over denominator.\<close>

definition rotated_gradient :: "Wavefunction \<Rightarrow> unitaries \<Rightarrow> string list \<Rightarrow> real list \<Rightarrow> complex option list" where
  "rotated_gradient W tab basis state =
     map (\<lambda>k. cdiv (numerator W tab basis state k) (denominator W tab basis state)) [0..<npar W]"

text \<open>A matrix of two rows and two columns.\<close>

definition two_by_two :: "'a matrix \<Rightarrow> bool" where
  "two_by_two M = (rows M = 2 \<and> cols M = 2 \<and> rectangular M)"

text \<open>A table in which the label of every rotated site has a matrix of two rows and two columns.\<close>

definition covers :: "unitaries \<Rightarrow> nat \<Rightarrow> string list \<Rightarrow> bool" where
  "covers tab n basis =
     list_all (\<lambda>j. case tab (basis ! j) of None \<Rightarrow> False | Some M \<Rightarrow> two_by_two M)
              (rotated_sites n basis)"

text \<open>A configuration whose entries are 0 or 1.\<close>

definition binary :: "real list \<Rightarrow> bool" where
  "binary v = list_all (\<lambda>x. x = 0 \<or> x = 1) v"

subsection \<open>Auxiliary notions\<close>

text \<open>
  The configuration that the loop building \<open>v\<close> has to produce when it runs over the
  sites \<open>a..n-1\<close> with the counter at \<open>c\<close>, from the configuration \<open>v\<close> and the bits \<open>b\<close>.
\<close>

definition filled :: "string list \<Rightarrow> nat \<Rightarrow> nat \<Rightarrow> nat \<Rightarrow> nat \<Rightarrow> real list \<Rightarrow> real list" where
  "filled basis b a n c v =
     map (\<lambda>j. if a \<le> j \<and> j < n \<and> basis ! j \<noteq> ''Z''
              then (if odd (b div 2 ^ (c + length (filter (\<lambda>i. basis ! i \<noteq> ''Z'') [a..<j]))) then 1 else 0)
              else v ! j)
         [0..<length v]"

subsection \<open>Example objects\<close>

text \<open>
  Concrete models and wavefunctions, at which the theorems below are instantiated.
  \<open>example_rbm n p\<close> has \<open>n\<close> visible units and one parameter, and gives every
  configuration the value \<open>p\<close> and the gradient entry 1; \<open>example_W n pa pp\<close> combines
  two of them. \<open>linear_rbm ps\<close> has the parameters \<open>ps\<close>, and its value and its gradient
  depend on them. The draws of \<open>example_gen u\<close> are \<open>u\<close>, \<open>u/2\<close>, \<open>u/4\<close> and so on.
\<close>

definition example_gen :: "real \<Rightarrow> real stream" where
  "example_gen u = siterate (\<lambda>x. x / 2) u"

definition example_rbm :: "nat \<Rightarrow> real \<Rightarrow> rbm" where
  "example_rbm n p =
     \<lparr>Nvisible = n, pars = [0], prob_fn = (\<lambda>ps v. p), grad_fn = (\<lambda>ps v k. 1),
      init_fn = (\<lambda>seed sigma. [0])\<rparr>"

definition example_W :: "nat \<Rightarrow> real \<Rightarrow> real \<Rightarrow> Wavefunction" where
  "example_W n pa pp =
     \<lparr>N = n, npar = 2, rbmAm = example_rbm n pa, rbmPh = example_rbm n pp,
      rgen = example_gen (1/2)\<rparr>"

definition linear_rbm :: "real list \<Rightarrow> rbm" where
  "linear_rbm ps =
     \<lparr>Nvisible = 2, pars = ps, prob_fn = (\<lambda>ps v. 1 + (sum_list ps)\<^sup>2),
      grad_fn = (\<lambda>ps v k. ps ! k + sum_list v),
      init_fn = (\<lambda>seed sigma. [real_of_int seed, sigma])\<rparr>"

definition linear_W :: "real list \<Rightarrow> real list \<Rightarrow> Wavefunction" where
  "linear_W a p =
     \<lparr>N = 2, npar = length a + length p, rbmAm = linear_rbm a, rbmPh = linear_rbm p,
      rgen = example_gen (1/2)\<rparr>"

text \<open>
  \<open>site_rbm\<close> gives a configuration of two sites the value 4 when its second entry is 1
  and the value 1 otherwise, and the gradient entry \<open>1 + v(1)\<close>; \<open>site_W\<close> has it as its
  amplitude model. \<open>example_table\<close> holds one matrix, under the label \<open>"X"\<close>.
\<close>

definition site_rbm :: rbm where
  "site_rbm =
     \<lparr>Nvisible = 2, pars = [0], prob_fn = (\<lambda>ps v. if v ! 1 = 1 then 4 else 1),
      grad_fn = (\<lambda>ps v k. 1 + v ! 1), init_fn = (\<lambda>seed sigma. [0])\<rparr>"

definition site_W :: Wavefunction where
  "site_W = \<lparr>N = 2, npar = 2, rbmAm = site_rbm, rbmPh = example_rbm 2 1, rgen = example_gen (1/2)\<rparr>"

definition empty_table :: unitaries where
  "empty_table = Map.empty"

definition example_table :: unitaries where
  "example_table = empty_table(''X'' \<mapsto> [[1, 2], [3, 4]])"

section \<open>Properties\<close>

subsection \<open>ln1pexp\<close>

lemma ln1pexp_loop_eq:
  "i + length xs \<le> length y \<Longrightarrow>
   ln1pexp_loop xs i y = Returned (take i y @ map ln1pexp xs @ drop (i + length xs) y)"
proof (induction xs arbitrary: i y)
  case Nil
  then show ?case by simp
next
  case (Cons xi xs)
  from Cons.prems have i: "i < length y" and le: "Suc i + length xs \<le> length (y[i := ln1pexp xi])"
    by simp_all
  have "take (Suc i) (y[i := ln1pexp xi]) = take i y @ [ln1pexp xi]"
    using i by (simp add: take_Suc_conv_app_nth)
  then show ?case
    using i Cons.IH [OF le] by simp
qed

text \<open>
  C9. For every real \<open>x\<close>, the scalar \<open>ln1pexp\<close> returns \<open>x\<close> unchanged when \<open>x > 30\<close> and
  \<open>log1p(exp(x))\<close> otherwise; \<open>ln1pexp(31)\<close> is 31; and the vector overload, given an
  output vector with room for every entry of \<open>x\<close>, returns with entry \<open>i\<close> of the output
  equal to \<open>ln1pexp\<close> of entry \<open>i\<close> of \<open>x\<close>, for every entry of \<open>x\<close>, and with the other
  entries of the output as they were.
\<close>

theorem ln1pexp_rule:
  "(x > 30 \<longrightarrow> ln1pexp x = x) \<and>
   (\<not> x > 30 \<longrightarrow> ln1pexp x = ln (1 + exp x)) \<and>
   ln1pexp 31 = 31 \<and>
   (length xs \<le> length y \<longrightarrow>
      ln1pexp_vec xs y = Returned (map ln1pexp xs @ drop (length xs) y))"
  using ln1pexp_loop_eq [of 0 xs y] by (simp add: ln1pexp_def ln1pexp_vec_def)

theorem ln1pexp_rule_witness:
  "ln1pexp 40 = 40 \<and> ln1pexp 0 = ln 2 \<and> ln1pexp 31 = 31 \<and>
   ln1pexp_vec [40, 0] [7, 7, 7] = Returned [40, ln 2, 7]"
  using ln1pexp_rule [of 40 "[40, 0]" "[7, 7, 7]"] ln1pexp_rule [of 0 "[]" "[]"]
  by (simp add: ln1pexp_def)

subsection \<open>amplitude, phase and psi\<close>

lemma cmod_half_phase: "cmod (exp (complex_of_real (1/2) * \<i> * complex_of_real p)) = 1"
proof -
  have "complex_of_real (1/2) * \<i> * complex_of_real p = \<i> * complex_of_real (p / 2)"
    by simp
  also have "exp \<dots> = cis (p / 2)"
    by (simp only: cis_conv_exp)
  finally show ?thesis by (simp only: norm_cis)
qed

text \<open>
  C6 (as amended). For every configuration \<open>v\<close>: where the amplitude model's \<open>prob\<close> is
  not negative, \<open>amplitude(v)\<close> is its square root; where the phase model's \<open>prob\<close> is
  positive, \<open>phase(v)\<close> is its logarithm; where both hold, \<open>psi(v)\<close> is the complex number
  \<open>amplitude(v) \<cdot> exp(i\<cdot>phase(v)/2)\<close> and its modulus is \<open>amplitude(v)\<close>; and where either
  fails, \<open>psi(v)\<close> is not a finite number.
\<close>

theorem psi_modulus:
  "(0 \<le> Rbm_prob (rbmAm W) v \<longrightarrow> amplitude W v = Some (sqrt (Rbm_prob (rbmAm W) v))) \<and>
   (0 < Rbm_prob (rbmPh W) v \<longrightarrow> phase W v = Some (ln (Rbm_prob (rbmPh W) v))) \<and>
   (0 \<le> Rbm_prob (rbmAm W) v \<and> 0 < Rbm_prob (rbmPh W) v \<longrightarrow>
      (\<exists>z. psi W v = Some z \<and>
           z = complex_of_real (sqrt (Rbm_prob (rbmAm W) v)) *
               exp (\<i> * complex_of_real (ln (Rbm_prob (rbmPh W) v)) / 2) \<and>
           cmod z = sqrt (Rbm_prob (rbmAm W) v))) \<and>
   (Rbm_prob (rbmAm W) v < 0 \<or> Rbm_prob (rbmPh W) v \<le> 0 \<longrightarrow> psi W v = None)"
proof -
  have m: "cmod (complex_of_real (sqrt (Rbm_prob (rbmAm W) v)) *
      exp (complex_of_real (1/2) * \<i> * complex_of_real (ln (Rbm_prob (rbmPh W) v)))) =
      sqrt (Rbm_prob (rbmAm W) v)" if "0 \<le> Rbm_prob (rbmAm W) v"
    using that by (simp only: norm_mult cmod_half_phase norm_of_real) simp
  show ?thesis
    using m by (auto simp: psi_def amplitude_def phase_def sqrt_double_def log_double_def)
qed

theorem psi_modulus_witness:
  "0 \<le> Rbm_prob (rbmAm (example_W 1 4 1)) [0] \<and> 0 < Rbm_prob (rbmPh (example_W 1 4 1)) [0] \<and>
   amplitude (example_W 1 4 1) [0] = Some 2 \<and> phase (example_W 1 4 1) [0] = Some 0 \<and>
   psi (example_W 1 4 1) [0] = Some 2 \<and> cmod 2 = sqrt (Rbm_prob (rbmAm (example_W 1 4 1)) [0]) \<and>
   Rbm_prob (rbmPh (example_W 1 4 (-1))) [0] \<le> 0 \<and> psi (example_W 1 4 (-1)) [0] = None"
  using psi_modulus [of "example_W 1 4 1" "[0]"] psi_modulus [of "example_W 1 4 (-1)" "[0]"]
  by (simp add: example_W_def example_rbm_def Rbm_prob_def)

text \<open>
  The claim as it was stated, with a contract on the amplitude model only, fails where
  the phase model's \<open>prob\<close> is 0: \<open>std::log\<close> gives minus infinity and \<open>psi\<close> is a NaN,
  while \<open>amplitude\<close> is 1.
\<close>

theorem psi_not_finite_counterexample:
  "0 \<le> Rbm_prob (rbmAm (example_W 1 1 0)) [0] \<and> amplitude (example_W 1 1 0) [0] = Some 1 \<and>
   psi (example_W 1 1 0) [0] = None"
  by (simp add: example_W_def example_rbm_def Rbm_prob_def psi_def amplitude_def phase_def
      sqrt_double_def log_double_def)

subsection \<open>InitRandomPars\<close>

text \<open>
  C10. \<open>InitRandomPars(seed, sigma)\<close> hands the same seed and the same \<open>sigma\<close> to the
  amplitude model and to the phase model, and changes nothing else in the object; two
  models that draw their parameters in the same way hold the same parameter vector
  afterwards, and the two models of a newly constructed wavefunction, which are built
  from the same \<open>Parameters\<close>, are equal afterwards.
\<close>

theorem InitRandomPars_forwards:
  "rbmAm (InitRandomPars seed sigma W) = Rbm_InitRandomPars seed sigma (rbmAm W) \<and>
   rbmPh (InitRandomPars seed sigma W) = Rbm_InitRandomPars seed sigma (rbmPh W) \<and>
   N (InitRandomPars seed sigma W) = N W \<and> npar (InitRandomPars seed sigma W) = npar W \<and>
   rgen (InitRandomPars seed sigma W) = rgen W \<and>
   (init_fn (rbmAm W) = init_fn (rbmPh W) \<longrightarrow>
      Rbm_GetParameters (rbmAm (InitRandomPars seed sigma W)) =
      Rbm_GetParameters (rbmPh (InitRandomPars seed sigma W))) \<and>
   rbmAm (InitRandomPars seed sigma (Wavefunction_new mk mt par)) =
   rbmPh (InitRandomPars seed sigma (Wavefunction_new mk mt par))"
proof -
  have fields: "rbmAm (InitRandomPars seed sigma W) = Rbm_InitRandomPars seed sigma (rbmAm W)"
    "rbmPh (InitRandomPars seed sigma W) = Rbm_InitRandomPars seed sigma (rbmPh W)"
    "N (InitRandomPars seed sigma W) = N W" "npar (InitRandomPars seed sigma W) = npar W"
    "rgen (InitRandomPars seed sigma W) = rgen W" for W
    by (simp_all add: InitRandomPars_def)
  have same: "Rbm_GetParameters (Rbm_InitRandomPars seed sigma (rbmAm W)) =
      Rbm_GetParameters (Rbm_InitRandomPars seed sigma (rbmPh W))"
    if "init_fn (rbmAm W) = init_fn (rbmPh W)"
    using that by (simp add: Rbm_InitRandomPars_def Rbm_GetParameters_def)
  have new: "rbmAm (Wavefunction_new mk mt par) = rbmPh (Wavefunction_new mk mt par)"
    by (simp add: Wavefunction_new_def)
  show ?thesis
    using same by (simp add: fields new)
qed

theorem InitRandomPars_forwards_witness:
  "init_fn (rbmAm (linear_W [1, 2] [3, 4])) = init_fn (rbmPh (linear_W [1, 2] [3, 4])) \<and>
   Rbm_GetParameters (rbmAm (InitRandomPars 7 (1/10) (linear_W [1, 2] [3, 4]))) = [7, 1/10] \<and>
   Rbm_GetParameters (rbmPh (InitRandomPars 7 (1/10) (linear_W [1, 2] [3, 4]))) = [7, 1/10]"
  using InitRandomPars_forwards [of 7 "1/10" "linear_W [1, 2] [3, 4]"]
  by (simp add: linear_W_def linear_rbm_def InitRandomPars_def Rbm_InitRandomPars_def Rbm_GetParameters_def)

subsection \<open>SetParameters and GetParameters\<close>

lemma Wavefunction_new_counts:
  "npar (Wavefunction_new mk mt par) =
     Rbm_Npar (rbmAm (Wavefunction_new mk mt par)) + Rbm_Npar (rbmPh (Wavefunction_new mk mt par)) \<and>
   Rbm_Npar (rbmAm (Wavefunction_new mk mt par)) = Rbm_Npar (rbmPh (Wavefunction_new mk mt par))"
  by (simp add: Wavefunction_new_def)

lemma SetParameters_loop_eq:
  "a + length is = h \<Longrightarrow> is = [a..<h] \<Longrightarrow> 2 * h \<le> length ps \<Longrightarrow> length pa = h \<Longrightarrow> length pp = h \<Longrightarrow>
   SetParameters_loop ps h is (pa, pp) =
     Returned (take a pa @ map (\<lambda>i. ps ! i) is, take a pp @ map (\<lambda>i. ps ! (i + h)) is)"
proof (induction "is" arbitrary: a pa pp)
  case Nil
  then show ?case by simp
next
  case (Cons i "is")
  from Cons.prems(2) [symmetric] have ia: "i = a" and ah: "a < h" and rest: "is = [Suc a..<h]"
    by (auto simp: upt_eq_Cons_conv)
  have len: "Suc a + length is = h" using Cons.prems(1) by simp
  have v1: "vcoeff ps (int a) = Returned (ps ! a)"
    using ah Cons.prems(3) by (simp add: vcoeff_def)
  have v2: "vcoeff ps (int a + int h) = Returned (ps ! (a + h))"
    using ah Cons.prems(3) by (simp add: vcoeff_def nat_int_add)
  have IH: "SetParameters_loop ps h is (pa[a := ps ! a], pp[a := ps ! (a + h)]) =
     Returned (take (Suc a) (pa[a := ps ! a]) @ map (\<lambda>i. ps ! i) is,
               take (Suc a) (pp[a := ps ! (a + h)]) @ map (\<lambda>i. ps ! (i + h)) is)"
    using Cons.IH [OF len rest Cons.prems(3)] Cons.prems(4,5) by simp
  have t1: "take (Suc a) (pa[a := ps ! a]) = take a pa @ [ps ! a]"
    using ah Cons.prems(4) by (simp add: take_Suc_conv_app_nth)
  have t2: "take (Suc a) (pp[a := ps ! (a + h)]) = take a pp @ [ps ! (a + h)]"
    using ah Cons.prems(5) by (simp add: take_Suc_conv_app_nth)
  show ?case
    using IH by (simp add: ia v1 v2 t1 t2)
qed

lemma map_nth_shift: "h + n \<le> length ps \<Longrightarrow> map (\<lambda>i. ps ! (i + h)) [0..<n] = take n (drop h ps)"
  by (rule nth_equalityI) (simp_all add: add.commute)

lemma SetParameters_split:
  assumes "2 * (npar W div 2) \<le> length ps"
  shows "SetParameters ps W =
     Returned (W\<lparr>rbmAm := Rbm_SetParameters (take (npar W div 2) ps) (rbmAm W),
                 rbmPh := Rbm_SetParameters (take (npar W div 2) (drop (npar W div 2) ps)) (rbmPh W)\<rparr>)"
proof -
  let ?h = "npar W div 2"
  have "SetParameters_loop ps ?h [0..<?h] (replicate ?h 0, replicate ?h 0) =
     Returned (take 0 (replicate ?h 0) @ map (\<lambda>i. ps ! i) [0..<?h], take 0 (replicate ?h 0) @ map (\<lambda>i. ps ! (i + ?h)) [0..<?h])"
    using assms by (intro SetParameters_loop_eq) simp_all
  moreover have "map (\<lambda>i. ps ! i) [0..<?h] = take ?h ps"
    using assms by (intro nth_equalityI) simp_all
  moreover have "map (\<lambda>i. ps ! (i + ?h)) [0..<?h] = take ?h (drop ?h ps)"
    using assms by (intro map_nth_shift) simp
  ultimately show ?thesis
    by (simp add: SetParameters_def Let_def)
qed

text \<open>
  C7. When the two models have equally many parameters (and \<open>npar_\<close> is their sum, as
  the constructor sets it): \<open>SetParameters(pars)\<close> gives the entries \<open>0..npar/2-1\<close> of
  \<open>pars\<close> to the amplitude model and the entries \<open>npar/2..npar-1\<close> to the phase model;
  \<open>SetParameters(GetParameters())\<close> returns the object unchanged, so \<open>amplitude\<close>,
  \<open>phase\<close> and \<open>Grad\<close> are unchanged at every \<open>v\<close>.
\<close>

theorem SetParameters_halves:
  assumes eq: "Rbm_Npar (rbmAm W) = Rbm_Npar (rbmPh W)"
    and inv: "npar W = Rbm_Npar (rbmAm W) + Rbm_Npar (rbmPh W)"
  shows "(length ps = npar W \<longrightarrow>
            (\<exists>W'. SetParameters ps W = Returned W' \<and>
               Rbm_GetParameters (rbmAm W') = map (\<lambda>i. ps ! i) [0..<npar W div 2] \<and>
               Rbm_GetParameters (rbmPh W') = map (\<lambda>i. ps ! i) [npar W div 2..<npar W])) \<and>
         (\<exists>gp. GetParameters W = Returned gp \<and> SetParameters gp W = Returned W) \<and>
         (\<forall>W'. bind_outcome (GetParameters W) (\<lambda>gp. SetParameters gp W) = Returned W' \<longrightarrow>
            amplitude W' v = amplitude W v \<and> phase W' v = phase W v \<and> Grad W' v = Grad W v)"
proof -
  let ?h = "npar W div 2"
  have h: "?h = Rbm_Npar (rbmAm W)" and h2: "npar W = 2 * ?h"
    using eq inv by simp_all
  have get: "GetParameters W = Returned (pars (rbmAm W) @ pars (rbmPh W))"
    using inv by (simp add: GetParameters_def Rbm_GetParameters_def Rbm_Npar_def)
  have "SetParameters (pars (rbmAm W) @ pars (rbmPh W)) W =
     Returned (W\<lparr>rbmAm := Rbm_SetParameters (take ?h (pars (rbmAm W) @ pars (rbmPh W))) (rbmAm W),
                 rbmPh := Rbm_SetParameters (take ?h (drop ?h (pars (rbmAm W) @ pars (rbmPh W)))) (rbmPh W)\<rparr>)"
    using eq inv by (intro SetParameters_split) (simp add: Rbm_Npar_def)
  also have "take ?h (pars (rbmAm W) @ pars (rbmPh W)) = pars (rbmAm W)"
    using h by (simp add: Rbm_Npar_def)
  also have "take ?h (drop ?h (pars (rbmAm W) @ pars (rbmPh W))) = pars (rbmPh W)"
    using h eq by (simp add: Rbm_Npar_def)
  finally have set: "SetParameters (pars (rbmAm W) @ pars (rbmPh W)) W = Returned W"
    by (simp add: Rbm_SetParameters_def)
  have split: "\<exists>W'. SetParameters ps W = Returned W' \<and>
               Rbm_GetParameters (rbmAm W') = map (\<lambda>i. ps ! i) [0..<?h] \<and>
               Rbm_GetParameters (rbmPh W') = map (\<lambda>i. ps ! i) [?h..<npar W]" if len: "length ps = npar W"
  proof -
    have le: "2 * ?h \<le> length ps" using len h2 by simp
    have a: "take ?h ps = map (\<lambda>i. ps ! i) [0..<?h]"
      using le by (intro nth_equalityI) simp_all
    have b: "take ?h (drop ?h ps) = map (\<lambda>i. ps ! i) [?h..<npar W]"
      using le h2 len by (intro nth_equalityI) simp_all
    show ?thesis
      using SetParameters_split [OF le] a b
      by (simp add: Rbm_GetParameters_def Rbm_SetParameters_def)
  qed
  show ?thesis
    using split get set by (simp add: bind_outcome_def)
qed

theorem SetParameters_halves_witness:
  "Rbm_Npar (rbmAm (linear_W [1, 2] [3, 4])) = Rbm_Npar (rbmPh (linear_W [1, 2] [3, 4])) \<and>
   npar (linear_W [1, 2] [3, 4]) =
     Rbm_Npar (rbmAm (linear_W [1, 2] [3, 4])) + Rbm_Npar (rbmPh (linear_W [1, 2] [3, 4])) \<and>
   length [5, 6, 7, 8 :: real] = npar (linear_W [1, 2] [3, 4]) \<and>
   SetParameters [5, 6, 7, 8] (linear_W [1, 2] [3, 4]) = Returned (linear_W [5, 6] [7, 8]) \<and>
   GetParameters (linear_W [1, 2] [3, 4]) = Returned [1, 2, 3, 4] \<and>
   SetParameters [1, 2, 3, 4] (linear_W [1, 2] [3, 4]) = Returned (linear_W [1, 2] [3, 4])"
  using SetParameters_halves [of "linear_W [1, 2] [3, 4]" "[5, 6, 7, 8]" "[0, 1]"]
  apply (simp add: linear_W_def linear_rbm_def Rbm_Npar_def Rbm_GetParameters_def GetParameters_def)
  apply (simp add: SetParameters_def vcoeff_def Rbm_SetParameters_def upt_rec [of _ "Suc _"])
  done

subsection \<open>SampleLayer\<close>

lemma coeff_nat: "s < rows M \<Longrightarrow> i < cols M \<Longrightarrow> coeff M (int s) (int i) = Returned (M ! s ! i)"
  by (simp add: coeff_def)

lemma SampleLayer_row_eq:
  "c - a = n \<Longrightarrow> a \<le> c \<Longrightarrow> s < length hv \<Longrightarrow> length (hv ! s) = c \<Longrightarrow> s < rows probs \<Longrightarrow> c \<le> cols probs \<Longrightarrow>
   SampleLayer_row probs s [a..<c] (hv, g) =
     Returned (hv[s := take a (hv ! s) @ map (\<lambda>i. bernoulli (g !! (i - a)) (probs ! s ! i)) [a..<c]],
               sdrop (c - a) g)"
proof (induction n arbitrary: a hv g)
  case 0
  then have "a = c" by simp
  with 0 show ?case by simp
next
  case (Suc n)
  let ?x = "bernoulli (shd g) (probs ! s ! a)"
  let ?hv = "hv[s := (hv ! s)[a := ?x]]"
  from Suc.prems have ac: "a < c" and n: "c - Suc a = n" and le: "Suc a \<le> c" by simp_all
  have up: "[a..<c] = a # [Suc a..<c]" using ac by (simp add: upt_conv_Cons)
  have co: "coeff probs (int s) (int a) = Returned (probs ! s ! a)"
    using ac Suc.prems by (intro coeff_nat) simp_all
  have row: "?hv ! s = (hv ! s)[a := ?x]" using Suc.prems by simp
  have IH: "SampleLayer_row probs s [Suc a..<c] (?hv, stl g) =
     Returned (?hv[s := take (Suc a) (?hv ! s) @ map (\<lambda>i. bernoulli (stl g !! (i - Suc a)) (probs ! s ! i)) [Suc a..<c]],
               sdrop (c - Suc a) (stl g))"
    using Suc.prems by (intro Suc.IH [OF n le]) simp_all
  have t: "take (Suc a) ((hv ! s)[a := ?x]) = take a (hv ! s) @ [?x]"
    using ac Suc.prems by (simp add: take_Suc_conv_app_nth)
  have step: "SampleLayer_row probs s (a # [Suc a..<c]) (hv, g) =
              SampleLayer_row probs s [Suc a..<c] (?hv, stl g)"
    by (simp add: co bernoulli_def)
  have m: "map (\<lambda>i. bernoulli (stl g !! (i - Suc a)) (probs ! s ! i)) [Suc a..<c] =
           map (\<lambda>i. bernoulli (g !! (i - a)) (probs ! s ! i)) [Suc a..<c]"
  proof (rule map_cong [OF refl])
    fix i assume "i \<in> set [Suc a..<c]"
    then have "i - a = Suc (i - Suc a)" by auto
    then show "bernoulli (stl g !! (i - Suc a)) (probs ! s ! i) = bernoulli (g !! (i - a)) (probs ! s ! i)"
      by simp
  qed
  have d: "sdrop (c - Suc a) (stl g) = sdrop (c - a) g"
  proof -
    have "c - a = Suc (c - Suc a)" using ac by simp
    then show ?thesis by simp
  qed
  show ?case
    unfolding up step IH
    by (simp add: row t m d)
qed

lemma SampleLayer_rows_eq:
  "r - a = n \<Longrightarrow> a \<le> r \<Longrightarrow> r = length hv \<Longrightarrow> \<forall>s<r. length (hv ! s) = c \<Longrightarrow> r \<le> rows probs \<Longrightarrow> c \<le> cols probs \<Longrightarrow>
   SampleLayer_rows probs c [a..<r] (hv, g) =
     Returned (take a hv @ map (\<lambda>s. map (\<lambda>i. bernoulli (g !! ((s - a) * c + i)) (probs ! s ! i)) [0..<c]) [a..<r],
               sdrop ((r - a) * c) g)"
proof (induction n arbitrary: a hv g)
  case 0
  then have "a = r" by simp
  with 0 show ?case by simp
next
  case (Suc n)
  let ?row = "map (\<lambda>i. bernoulli (g !! i) (probs ! a ! i)) [0..<c]"
  let ?hv = "hv[a := ?row]"
  from Suc.prems have ar: "a < r" and n: "r - Suc a = n" and le: "Suc a \<le> r" by simp_all
  have up: "[a..<r] = a # [Suc a..<r]" using ar by (simp add: upt_conv_Cons)
  have row: "SampleLayer_row probs a [0..<c] (hv, g) = Returned (?hv, sdrop c g)"
    using SampleLayer_row_eq [of c 0 c a hv probs g] ar Suc.prems by simp
  have lens: "\<forall>s<r. length (?hv ! s) = c"
    using Suc.prems by (simp add: nth_list_update)
  have IH: "SampleLayer_rows probs c [Suc a..<r] (?hv, sdrop c g) =
     Returned (take (Suc a) ?hv @ map (\<lambda>s. map (\<lambda>i. bernoulli (sdrop c g !! ((s - Suc a) * c + i)) (probs ! s ! i)) [0..<c]) [Suc a..<r],
               sdrop ((r - Suc a) * c) (sdrop c g))"
    using Suc.prems lens by (intro Suc.IH [OF n le]) simp_all
  have t: "take (Suc a) ?hv = take a hv @ [?row]"
    using ar Suc.prems by (simp add: take_Suc_conv_app_nth)
  have m: "map (\<lambda>s. map (\<lambda>i. bernoulli (sdrop c g !! ((s - Suc a) * c + i)) (probs ! s ! i)) [0..<c]) [Suc a..<r] =
           map (\<lambda>s. map (\<lambda>i. bernoulli (g !! ((s - a) * c + i)) (probs ! s ! i)) [0..<c]) [Suc a..<r]"
  proof (rule map_cong [OF refl], rule map_cong [OF refl])
    fix s i assume "s \<in> set [Suc a..<r]"
    then have "s - a = Suc (s - Suc a)" by auto
    then show "bernoulli (sdrop c g !! ((s - Suc a) * c + i)) (probs ! s ! i) =
               bernoulli (g !! ((s - a) * c + i)) (probs ! s ! i)"
      by (simp add: sdrop_snth add.assoc)
  qed
  have d: "sdrop (c + (r - Suc a) * c) g = sdrop ((r - a) * c) g"
  proof -
    have "r - a = Suc (r - Suc a)" using ar by simp
    then show ?thesis by simp
  qed
  show ?case
    unfolding up using IH
    by (simp add: row t m d)
qed

lemma rectangular_nth: "rectangular M \<Longrightarrow> s < length M \<Longrightarrow> length (M ! s) = cols M"
  by (simp add: rectangular_def list_all_length)

lemma SampleLayer_eq:
  assumes "rectangular hv" and "rows hv \<le> rows probs" and "cols hv \<le> cols probs"
  shows "SampleLayer W hv probs =
     Returned (map (\<lambda>s. map (\<lambda>i. bernoulli (rgen W !! (s * cols hv + i)) (probs ! s ! i)) [0..<cols hv]) [0..<rows hv],
               W\<lparr>rgen := sdrop (rows hv * cols hv) (rgen W)\<rparr>)"
  using SampleLayer_rows_eq [of "rows hv" 0 "rows hv" hv "cols hv" probs "rgen W"] assms
  by (simp add: SampleLayer_def rows_def rectangular_nth)

text \<open>
  C8. For a target matrix \<open>hv\<close> and a probability matrix of the same shape,
  \<open>SampleLayer\<close> returns with \<open>hv\<close> holding, at every position \<open>(s,i)\<close>, 1 if draw number
  \<open>s \<cdot> cols + i\<close> of the generator, counted from its state at the call, is less than
  \<open>probs(s,i)\<close>, and 0 otherwise; every entry is 0 or 1. The generator has advanced by
  \<open>rows \<cdot> cols\<close> draws. What is written depends on the generator's state, on \<open>probs\<close>
  and on the shape of \<open>hv\<close> only, not on what \<open>hv\<close> held before.
\<close>

theorem SampleLayer_bernoulli:
  assumes "rectangular hv" and "rectangular probs"
    and "rows probs = rows hv" and "cols probs = cols hv"
  shows "SampleLayer W hv probs =
           Returned (sampled (rgen W) probs (rows hv) (cols hv),
                     W\<lparr>rgen := sdrop (rows hv * cols hv) (rgen W)\<rparr>) \<and>
         list_all (list_all (\<lambda>x. x = 0 \<or> x = 1)) (sampled (rgen W) probs (rows hv) (cols hv))"
proof -
  have "list_all (list_all (\<lambda>x. x = 0 \<or> x = 1)) (sampled (rgen W) probs (rows hv) (cols hv))"
    by (auto simp: sampled_def list_all_iff bernoulli_def)
  then show ?thesis
    using assms by (simp add: SampleLayer_eq sampled_def)
qed

theorem SampleLayer_bernoulli_witness:
  "rectangular [[5, 5], [5, 5 :: real]] \<and> rectangular [[3/10, 3/10], [1/10, 1/10 :: real]] \<and>
   rows [[3/10, 3/10], [1/10, 1/10 :: real]] = rows [[5, 5], [5, 5 :: real]] \<and>
   cols [[3/10, 3/10], [1/10, 1/10 :: real]] = cols [[5, 5], [5, 5 :: real]] \<and>
   SampleLayer (example_W 2 1 1) [[5, 5], [5, 5]] [[3/10, 3/10], [1/10, 1/10]] =
     Returned ([[0, 1], [0, 1]], (example_W 2 1 1)\<lparr>rgen := example_gen (1/32)\<rparr>) \<and>
   sampled (rgen (example_W 2 1 1)) [[3/10, 3/10], [1/10, 1/10]]
     (rows [[5, 5], [5, 5 :: real]]) (cols [[5, 5], [5, 5 :: real]]) = [[0, 1], [0, 1]]"
proof -
  have r: "rectangular [[5, 5], [5, 5 :: real]]"
    and r': "rectangular [[3/10, 3/10], [1/10, 1/10 :: real]]"
    by (simp_all add: rectangular_def cols_def)
  have s: "rows [[3/10, 3/10], [1/10, 1/10 :: real]] = rows [[5, 5], [5, 5 :: real]]"
    and s': "cols [[3/10, 3/10], [1/10, 1/10 :: real]] = cols [[5, 5], [5, 5 :: real]]"
    by (simp_all add: rows_def cols_def)
  have e: "SampleLayer (example_W 2 1 1) [[5, 5], [5, 5]] [[3/10, 3/10], [1/10, 1/10]] =
     Returned ([[0, 1], [0, 1]], (example_W 2 1 1)\<lparr>rgen := example_gen (1/32)\<rparr>)"
    by (simp add: SampleLayer_def rows_def cols_def coeff_def example_W_def example_gen_def
        upt_rec [of _ "Suc _"] upt_rec [of _ "numeral _"])
  show ?thesis
    using SampleLayer_bernoulli [OF r r' s s', of "example_W 2 1 1"] r r' s s' e by simp
qed

subsection \<open>rotatedGrad in the computational basis\<close>

lemma example_W_sizes:
  "N (example_W n a b) = n" "npar (example_W n a b) = 2"
  "Rbm_Npar (rbmAm (example_W n a b)) = 1" "Rbm_Npar (rbmPh (example_W n a b)) = 1"
  by (simp_all add: example_W_def example_rbm_def Rbm_Npar_def)

lemma example_W_psi_zero: "psi (example_W n 0 1) v = Some 0"
  by (simp add: psi_def amplitude_def phase_def sqrt_double_def log_double_def Rbm_prob_def
      example_W_def example_rbm_def)

lemma example_W_Grad: "Grad (example_W n a b) v = Returned [1, 1]"
  by (simp add: Grad_def Rbm_VisEnergyGrad_def Rbm_Npar_def example_W_def example_rbm_def)

lemma rotatedGrad_sites_eq:
  "\<forall>j\<in>set js. j < length basis \<Longrightarrow>
   rotatedGrad_sites basis js bI = Returned (bI @ filter (\<lambda>j. basis ! j \<noteq> ''Z'') js)"
  by (induction js arbitrary: bI) simp_all

lemma rotatedGrad_v_all_Z:
  "\<forall>j\<in>set js. basis ! j = ''Z'' \<Longrightarrow> rotatedGrad_v basis b js counter v = Returned v"
  by (induction js arbitrary: counter v) simp_all

lemma map2_first_step:
  "length g = n \<Longrightarrow>
   map2 (\<lambda>m gk. cadd m (cmul (Some (U * complex_of_real gk)) (Some z))) (replicate n (Some 0)) g =
   map (\<lambda>gk. Some (U * complex_of_real gk * z)) g"
  by (rule nth_equalityI) (simp_all add: cadd_def cmul_def)

text \<open>
  C5 (as amended). For a basis whose labels are all \<open>"Z"\<close> and a state at which \<open>psi\<close> is a
  finite number other than zero (and \<open>Grad\<close> returns): the call finds no rotated site (\<open>t = 0\<close>), so its loop
  runs over the single index 0; the call is that one pass followed by the division; in
  the pass \<open>v\<close> is \<open>state\<close> and \<open>U\<close> is 1; and \<open>gradR\<close> is \<open>Grad(state)\<close>, with the table not
  touched.
\<close>

theorem rotatedGrad_all_Z:
  assumes len: "N W \<le> length basis"
    and allZ: "\<forall>j<N W. basis ! j = ''Z''"
    and psi: "psi W state = Some z" and nz: "z \<noteq> 0"
    and grad: "Grad W state = Returned g"
  shows "(\<exists>basisIndex. rotatedGrad_sites basis [0..<N W] [] = Returned basisIndex \<and>
            basisIndex = [] \<and> [0..<2 ^ length basisIndex] = [0]) \<and>
         rotatedGrad W basis state Unitaries =
           (case rotatedGrad_step W basis state [] 0 (replicate (npar W) (Some 0), Some 0) Unitaries of
              (Undefined u, tab) \<Rightarrow> (Undefined u, tab)
            | (Returned (num, den), tab) \<Rightarrow> (Returned (map (\<lambda>n. cdiv n den) num), tab)) \<and>
         rotatedGrad_vU W basis state [] 0 Unitaries = (Returned (state, 1), Unitaries) \<and>
         rotatedGrad W basis state Unitaries = (Returned (map (\<lambda>x. Some (complex_of_real x)) g), Unitaries)"
proof -
  have sites: "rotatedGrad_sites basis [0..<N W] [] = Returned []"
    using len allZ by (subst rotatedGrad_sites_eq) (auto simp: filter_empty_conv)
  have v: "rotatedGrad_v basis (bitset16 0) [0..<N W] 0 state = Returned state"
    using allZ by (intro rotatedGrad_v_all_Z) simp
  have vU: "rotatedGrad_vU W basis state [] 0 Unitaries = (Returned (state, 1), Unitaries)"
    by (simp add: rotatedGrad_vU_def v)
  have glen: "length g = npar W"
    using grad by (auto simp: Grad_def Let_def split: if_splits)
  have step: "rotatedGrad_step W basis state [] 0 (replicate (npar W) (Some 0), Some 0) Unitaries =
      (Returned (map (\<lambda>gk. Some (1 * complex_of_real gk * z)) g, Some z), Unitaries)"
    using map2_first_step [OF glen, of 1 z]
    by (simp add: rotatedGrad_step_def vU grad psi) (simp add: cadd_def cmul_def)
  have once: "rotatedGrad W basis state Unitaries =
           (case rotatedGrad_step W basis state [] 0 (replicate (npar W) (Some 0), Some 0) Unitaries of
              (Undefined u, tab) \<Rightarrow> (Undefined u, tab)
            | (Returned (num, den), tab) \<Rightarrow> (Returned (map (\<lambda>n. cdiv n den) num), tab))"
    by (simp add: rotatedGrad_def sites split: prod.split outcome.split)
  have "map (\<lambda>n. cdiv n (Some z)) (map (\<lambda>gk. Some (1 * complex_of_real gk * z)) g) =
      map (\<lambda>x. Some (complex_of_real x)) g"
    using nz by (simp add: cdiv_def)
  then have result: "rotatedGrad W basis state Unitaries =
      (Returned (map (\<lambda>x. Some (complex_of_real x)) g), Unitaries)"
    unfolding once step by simp
  show ?thesis
    using sites once vU result by simp
qed

theorem rotatedGrad_all_Z_witness:
  "N (example_W 2 4 1) \<le> length [''Z'', ''Z''] \<and>
   psi (example_W 2 4 1) [0, 1] = Some 2 \<and> Grad (example_W 2 4 1) [0, 1] = Returned [1, 1] \<and>
   rotatedGrad_sites [''Z'', ''Z''] [0..<N (example_W 2 4 1)] [] = Returned [] \<and>
   rotatedGrad_vU (example_W 2 4 1) [''Z'', ''Z''] [0, 1] [] 0 empty_table =
     (Returned ([0, 1], 1), empty_table) \<and>
   rotatedGrad (example_W 2 4 1) [''Z'', ''Z''] [0, 1] empty_table =
     (Returned [Some 1, Some 1], empty_table)"
proof -
  have a: "N (example_W 2 4 1) \<le> length [''Z'', ''Z'']"
    by (simp add: example_W_def)
  have b: "\<forall>j<N (example_W 2 4 1). [''Z'', ''Z''] ! j = ''Z''"
    by (simp add: example_W_def less_Suc_eq numeral_2_eq_2)
  have c: "psi (example_W 2 4 1) [0, 1] = Some 2"
    by (simp add: psi_def amplitude_def phase_def sqrt_double_def log_double_def Rbm_prob_def
        example_W_def example_rbm_def)
  have d: "Grad (example_W 2 4 1) [0, 1] = Returned [1, 1]"
    by (simp add: Grad_def Rbm_VisEnergyGrad_def Rbm_Npar_def example_W_def example_rbm_def)
  have e: "(2::complex) \<noteq> 0" by simp
  note all_Z = rotatedGrad_all_Z [OF a b c e d, of empty_table]
  have s: "rotatedGrad_sites [''Z'', ''Z''] [0..<N (example_W 2 4 1)] [] = Returned []"
    using all_Z [THEN conjunct1] by blast
  have u: "rotatedGrad_vU (example_W 2 4 1) [''Z'', ''Z''] [0, 1] [] 0 empty_table =
     (Returned ([0, 1], 1), empty_table)"
    by (rule all_Z [THEN conjunct2, THEN conjunct2, THEN conjunct1])
  have r: "rotatedGrad (example_W 2 4 1) [''Z'', ''Z''] [0, 1] empty_table =
     (Returned [Some 1, Some 1], empty_table)"
    using all_Z [THEN conjunct2, THEN conjunct2, THEN conjunct2] by simp
  show ?thesis
    using a c d s u r by (intro conjI)
qed

text \<open>
  The claim as it was stated, for every state with \<open>psi(state) \<noteq> 0\<close>, fails where the phase
  model gives the state the value 0: \<open>psi(state)\<close> is a NaN, which is not equal to zero,
  \<open>Grad(state)\<close> is \<open>(1, 1)\<close>, and the single pass leaves NaNs in \<open>gradR\<close>.
\<close>

theorem rotatedGrad_all_Z_nan_counterexample:
  "psi (example_W 1 1 0) [0] = None \<and> psi (example_W 1 1 0) [0] \<noteq> Some 0 \<and>
   Grad (example_W 1 1 0) [0] = Returned [1, 1] \<and>
   rotatedGrad (example_W 1 1 0) [''Z''] [0] empty_table = (Returned [None, None], empty_table)"
proof -
  have p: "psi (example_W n 1 0) v = None" for n v
    by (simp add: psi_def amplitude_def phase_def sqrt_double_def log_double_def Rbm_prob_def
        example_W_def example_rbm_def)
  have "rotatedGrad (example_W 1 1 0) [''Z''] [0] empty_table = (Returned [None, None], empty_table)"
    by (simp add: rotatedGrad_def example_W_sizes rotatedGrad_step_def rotatedGrad_vU_def p
        example_W_Grad cmul_def cadd_def cdiv_def numeral_2_eq_2)
  then show ?thesis
    using p [of 1 "[0]"] example_W_Grad [of 1 1 0 "[0]"] by simp
qed

subsection \<open>rotatedGrad: the loops\<close>

lemma foldl_cadd_Some: "foldl cadd (Some a) (map Some xs) = Some (a + sum_list xs)"
  by (induction xs arbitrary: a) (simp_all add: cadd_def add.assoc)

lemma accumulate_Some: "accumulate (map Some xs) = Some (sum_list xs)"
  by (simp add: accumulate_def foldl_cadd_Some)

lemma filled_done: "filled basis b n n c v = v"
proof -
  have "filled basis b n n c v = map (\<lambda>j. v ! j) [0..<length v]"
    unfolding filled_def by (intro map_cong [OF refl]) auto
  then show ?thesis by (simp add: map_nth)
qed

lemma filled_rotated:
  assumes "a < n" and "a < length v" and "basis ! a \<noteq> ''Z''"
  shows "filled basis b (Suc a) n (Suc c) (v[a := (if odd (b div 2 ^ c) then 1 else 0)]) =
         filled basis b a n c v"
  unfolding filled_def
proof (rule nth_equalityI)
  fix j assume "j < length (map (\<lambda>j. if Suc a \<le> j \<and> j < n \<and> basis ! j \<noteq> ''Z''
              then (if odd (b div 2 ^ (Suc c + length (filter (\<lambda>i. basis ! i \<noteq> ''Z'') [Suc a..<j]))) then 1 else 0)
              else v[a := (if odd (b div 2 ^ c) then 1 else 0)] ! j)
         [0..<length (v[a := (if odd (b div 2 ^ c) then 1 else (0::real))])])"
  then have j: "j < length v" by simp
  have up: "[a..<j] = a # [Suc a..<j]" if "a < j" using that by (simp add: upt_conv_Cons)
  consider "j < a" | "j = a" | "a < j" by linarith
  then show "map (\<lambda>j. if Suc a \<le> j \<and> j < n \<and> basis ! j \<noteq> ''Z''
              then (if odd (b div 2 ^ (Suc c + length (filter (\<lambda>i. basis ! i \<noteq> ''Z'') [Suc a..<j]))) then 1 else 0)
              else v[a := (if odd (b div 2 ^ c) then 1 else 0)] ! j)
         [0..<length (v[a := (if odd (b div 2 ^ c) then 1 else (0::real))])] ! j =
        map (\<lambda>j. if a \<le> j \<and> j < n \<and> basis ! j \<noteq> ''Z''
              then (if odd (b div 2 ^ (c + length (filter (\<lambda>i. basis ! i \<noteq> ''Z'') [a..<j]))) then 1 else 0)
              else v ! j)
         [0..<length v] ! j"
  proof cases
    case 1 then show ?thesis using j by simp
  next
    case 2 then show ?thesis using j assms by simp
  next
    case 3 then show ?thesis using j assms(3) by (simp add: up)
  qed
qed simp

lemma filled_fixed:
  assumes "basis ! a = ''Z''"
  shows "filled basis b (Suc a) n c v = filled basis b a n c v"
  unfolding filled_def
proof (rule map_cong [OF refl])
  fix j
  have up: "[a..<j] = a # [Suc a..<j]" if "a < j" using that by (simp add: upt_conv_Cons)
  consider "j < a" | "j = a" | "a < j" by linarith
  then show "(if Suc a \<le> j \<and> j < n \<and> basis ! j \<noteq> ''Z''
              then (if odd (b div 2 ^ (c + length (filter (\<lambda>i. basis ! i \<noteq> ''Z'') [Suc a..<j]))) then 1 else 0)
              else v ! j) =
        (if a \<le> j \<and> j < n \<and> basis ! j \<noteq> ''Z''
              then (if odd (b div 2 ^ (c + length (filter (\<lambda>i. basis ! i \<noteq> ''Z'') [a..<j]))) then 1 else (0::real))
              else v ! j)"
  proof cases
    case 1 then show ?thesis by simp
  next
    case 2 then show ?thesis using assms by simp
  next
    case 3 then show ?thesis using assms by (simp add: up)
  qed
qed

lemma rotatedGrad_v_eq:
  "n - a = m \<Longrightarrow> a \<le> n \<Longrightarrow> n \<le> length v \<Longrightarrow>
   c + length (filter (\<lambda>j. basis ! j \<noteq> ''Z'') [a..<n]) \<le> 16 \<Longrightarrow>
   rotatedGrad_v basis b [a..<n] c v = Returned (filled basis b a n c v)"
proof (induction m arbitrary: a c v)
  case 0
  then show ?case by (simp add: filled_done)
next
  case (Suc m)
  from Suc.prems have an: "a < n" and m: "n - Suc a = m" and le: "Suc a \<le> n" by simp_all
  have up: "[a..<n] = a # [Suc a..<n]" using an by (simp add: upt_conv_Cons)
  show ?case
  proof (cases "basis ! a \<noteq> ''Z''")
    case True
    let ?v = "v[a := (if odd (b div 2 ^ c) then 1 else 0)]"
    have c16: "c < 16" and cap: "Suc c + length (filter (\<lambda>j. basis ! j \<noteq> ''Z'') [Suc a..<n]) \<le> 16"
      using Suc.prems(4) True by (simp_all add: up)
    have "rotatedGrad_v basis b (a # [Suc a..<n]) c v = rotatedGrad_v basis b [Suc a..<n] (Suc c) ?v"
      using True c16 an Suc.prems(3) by (simp add: bitset_test_def)
    also have "\<dots> = Returned (filled basis b (Suc a) n (Suc c) ?v)"
      using Suc.prems(3) by (intro Suc.IH [OF m le _ cap]) simp
    also have "filled basis b (Suc a) n (Suc c) ?v = filled basis b a n c v"
      using an Suc.prems(3) True by (intro filled_rotated) simp_all
    finally show ?thesis unfolding up .
  next
    case False
    have cap: "c + length (filter (\<lambda>j. basis ! j \<noteq> ''Z'') [Suc a..<n]) \<le> 16"
      using Suc.prems(4) False by (simp add: up)
    have "rotatedGrad_v basis b (a # [Suc a..<n]) c v = rotatedGrad_v basis b [Suc a..<n] c v"
      using False by simp
    also have "\<dots> = Returned (filled basis b (Suc a) n c v)"
      using Suc.prems(3) by (intro Suc.IH [OF m le _ cap]) simp
    also have "filled basis b (Suc a) n c v = filled basis b a n c v"
      using False by (intro filled_fixed) simp
    finally show ?thesis unfolding up .
  qed
qed

lemma bitset16_bit: "k < 16 \<Longrightarrow> odd (bitset16 i div 2 ^ k) = odd (i div 2 ^ k)"
proof -
  assume k: "k < 16"
  have "bit (take_bit 16 i) k = bit i k"
    using k by (simp add: bit_take_bit_iff)
  then show ?thesis
    by (simp add: bitset16_def bit_iff_odd take_bit_eq_mod)
qed

lemma length_rotated_sites_mono: "j \<le> n \<Longrightarrow> length (rotated_sites j basis) \<le> length (rotated_sites n basis)"
proof -
  assume "j \<le> n"
  then have "[0..<n] = [0..<j] @ [j..<n]"
    by (metis le_add_diff_inverse upt_add_eq_append zero_le)
  then show ?thesis by (simp add: rotated_sites_def)
qed

lemma length_rotated_sites_less:
  "j < n \<Longrightarrow> basis ! j \<noteq> ''Z'' \<Longrightarrow> length (rotated_sites j basis) < length (rotated_sites n basis)"
  using length_rotated_sites_mono [of "Suc j" n basis] by (simp add: rotated_sites_def)

lemma rotatedGrad_v_completion:
  assumes "n \<le> length state" and "length (rotated_sites n basis) \<le> 16"
  shows "rotatedGrad_v basis (bitset16 i) [0..<n] 0 state = Returned (completion n basis state i)"
proof -
  have "rotatedGrad_v basis (bitset16 i) [0..<n] 0 state = Returned (filled basis (bitset16 i) 0 n 0 state)"
    using assms by (intro rotatedGrad_v_eq [OF refl]) (simp_all add: rotated_sites_def)
  also have "filled basis (bitset16 i) 0 n 0 state = completion n basis state i"
    unfolding filled_def completion_def
  proof (rule map_cong [OF refl])
    fix j
    show "(if 0 \<le> j \<and> j < n \<and> basis ! j \<noteq> ''Z''
          then if odd (bitset16 i div 2 ^ (0 + length (filter (\<lambda>i. basis ! i \<noteq> ''Z'') [0..<j]))) then 1 else 0
          else state ! j) =
         (if j < n \<and> basis ! j \<noteq> ''Z'' then if odd (i div 2 ^ length (rotated_sites j basis)) then 1 else 0
          else state ! j)"
    proof (cases "j < n \<and> basis ! j \<noteq> ''Z''")
      case True
      then have "length (rotated_sites j basis) < 16"
        using length_rotated_sites_less [of j n basis] assms(2) by simp
      then show ?thesis
        using True bitset16_bit [of "length (rotated_sites j basis)" i] by (simp add: rotated_sites_def)
    next
      case False
      then show ?thesis by auto
    qed
  qed
  finally show ?thesis .
qed

lemma int_of_double_binary: "x = 0 \<or> x = 1 \<Longrightarrow> int_of_double x = Returned \<lfloor>x\<rfloor>"
  by (auto simp: int_of_double_def)

lemma unitary_element_binary:
  assumes "k < length state" "k < length v" "state ! k = 0 \<or> state ! k = 1" "v ! k = 0 \<or> v ! k = 1"
    and "rows M = 2" "cols M = 2"
  shows "unitary_element M state v k = Returned (M ! nat \<lfloor>state ! k\<rfloor> ! nat \<lfloor>v ! k\<rfloor>)"
proof -
  have "coeff M \<lfloor>state ! k\<rfloor> \<lfloor>v ! k\<rfloor> = Returned (M ! nat \<lfloor>state ! k\<rfloor> ! nat \<lfloor>v ! k\<rfloor>)"
    using assms(3-6) by (auto simp: coeff_def)
  then show ?thesis
    using assms(1-4)
    by (simp add: unitary_element_def vcoeff_def bind_outcome_def int_of_double_binary)
qed

lemma rotatedGrad_U_eq:
  assumes "\<forall>k\<in>set ks. k < length state \<and> k < length v \<and> (state ! k = 0 \<or> state ! k = 1) \<and>
             (v ! k = 0 \<or> v ! k = 1) \<and> (\<exists>M. tab (basis ! k) = Some M \<and> rows M = 2 \<and> cols M = 2)"
  shows "rotatedGrad_U basis state v ks U tab =
     (Returned (U * prod_list (map (\<lambda>j. table_entry tab (basis ! j) (state ! j) (v ! j)) ks)), tab)"
  using assms
proof (induction ks arbitrary: U)
  case Nil
  then show ?case by simp
next
  case (Cons k ks)
  from Cons.prems obtain M where M: "tab (basis ! k) = Some M" "rows M = 2" "cols M = 2"
    by auto
  have el: "unitary_element M state v k = Returned (table_entry tab (basis ! k) (state ! k) (v ! k))"
    using Cons.prems M by (simp add: unitary_element_binary table_entry_def)
  have "rotatedGrad_U basis state v (k # ks) U tab =
        rotatedGrad_U basis state v ks (U * table_entry tab (basis ! k) (state ! k) (v ! k)) tab"
    by (simp add: map_subscript_def M el)
  also have "\<dots> = (Returned (U * table_entry tab (basis ! k) (state ! k) (v ! k) *
                     prod_list (map (\<lambda>j. table_entry tab (basis ! j) (state ! j) (v ! j)) ks)), tab)"
    using Cons.prems by (intro Cons.IH) simp
  finally show ?case by (simp add: mult.assoc)
qed

lemma binary_nth: "binary v \<Longrightarrow> k < length v \<Longrightarrow> v ! k = 0 \<or> v ! k = 1"
  by (simp add: binary_def list_all_length)

lemma rotatedGrad_U_completion:
  assumes len: "n \<le> length state" and bin: "binary state" and cov: "covers tab n basis"
  shows "rotatedGrad_U basis state (completion n basis state y) (rotated_sites n basis) 1 tab =
     (Returned (rotation_amplitude tab n basis state (completion n basis state y)), tab)"
proof -
  have "\<forall>k\<in>set (rotated_sites n basis). k < length state \<and> k < length (completion n basis state y) \<and>
          (state ! k = 0 \<or> state ! k = 1) \<and>
          (completion n basis state y ! k = 0 \<or> completion n basis state y ! k = 1) \<and>
          (\<exists>M. tab (basis ! k) = Some M \<and> rows M = 2 \<and> cols M = 2)"
  proof
    fix k assume k: "k \<in> set (rotated_sites n basis)"
    then have kn: "k < n" and rot: "basis ! k \<noteq> ''Z''" by (simp_all add: rotated_sites_def)
    then have kl: "k < length state" using len by simp
    have "case tab (basis ! k) of None \<Rightarrow> False | Some M \<Rightarrow> two_by_two M"
      using cov k by (simp add: covers_def list_all_iff)
    then have "\<exists>M. tab (basis ! k) = Some M \<and> rows M = 2 \<and> cols M = 2"
      by (cases "tab (basis ! k)") (simp_all add: two_by_two_def)
    then show "k < length state \<and> k < length (completion n basis state y) \<and>
          (state ! k = 0 \<or> state ! k = 1) \<and>
          (completion n basis state y ! k = 0 \<or> completion n basis state y ! k = 1) \<and>
          (\<exists>M. tab (basis ! k) = Some M \<and> rows M = 2 \<and> cols M = 2)"
      using kl kn rot binary_nth [OF bin kl] by (simp add: completion_def)
  qed
  then show ?thesis
    by (simp add: rotatedGrad_U_eq rotation_amplitude_def)
qed

lemma Grad_plain: "npar W = Rbm_Npar (rbmAm W) + Rbm_Npar (rbmPh W) \<Longrightarrow> Grad W v = Returned (plain_gradient W v)"
  by (simp add: Grad_def plain_gradient_def Rbm_VisEnergyGrad_def Let_def)

lemma length_plain_gradient: "length (plain_gradient W v) = Rbm_Npar (rbmAm W) + Rbm_Npar (rbmPh W)"
  by (simp add: plain_gradient_def Rbm_VisEnergyGrad_def)

lemma rotatedGrad_step_eq:
  assumes lens: "N W \<le> length state" and cap: "length (rotated_sites (N W) basis) \<le> 16"
    and bin: "binary state" and cov: "covers tab (N W) basis"
    and inv: "npar W = Rbm_Npar (rbmAm W) + Rbm_Npar (rbmPh W)"
    and num: "length num = npar W"
  shows "rotatedGrad_step W basis state (rotated_sites (N W) basis) i (num, den) tab =
     (Returned (map (\<lambda>k. cadd (num ! k) (num_term W tab basis state k i)) [0..<npar W],
                cadd den (den_term W tab basis state i)), tab)"
proof -
  let ?v = "completion (N W) basis state i"
  let ?U = "rotation_amplitude tab (N W) basis state ?v"
  have "map2 (\<lambda>n gk. cadd n (cmul (Some (?U * complex_of_real gk)) (psi W ?v))) num (plain_gradient W ?v) =
        map (\<lambda>k. cadd (num ! k) (num_term W tab basis state k i)) [0..<npar W]"
    using num inv by (intro nth_equalityI) (simp_all add: length_plain_gradient num_term_def)
  then show ?thesis
    by (simp add: rotatedGrad_step_def rotatedGrad_vU_def rotatedGrad_v_completion [OF lens cap]
        rotatedGrad_U_completion [OF lens bin cov] Grad_plain [OF inv] den_term_def)
qed

lemma rotatedGrad_loop_eq:
  assumes lens: "N W \<le> length state" and cap: "length (rotated_sites (N W) basis) \<le> 16"
    and bin: "binary state" and cov: "covers tab (N W) basis"
    and inv: "npar W = Rbm_Npar (rbmAm W) + Rbm_Npar (rbmPh W)"
  shows "length num = npar W \<Longrightarrow>
     rotatedGrad_loop W basis state (rotated_sites (N W) basis) ys (num, den) tab =
     (Returned (map (\<lambda>k. foldl cadd (num ! k) (map (num_term W tab basis state k) ys)) [0..<npar W],
                foldl cadd den (map (den_term W tab basis state) ys)), tab)"
proof (induction ys arbitrary: num den)
  case Nil
  have "map ((!) num) [0..<length num] = num" by (rule map_nth)
  with Nil show ?case by simp
next
  case (Cons y ys)
  let ?num = "map (\<lambda>k. cadd (num ! k) (num_term W tab basis state k y)) [0..<npar W]"
  have "rotatedGrad_loop W basis state (rotated_sites (N W) basis) (y # ys) (num, den) tab =
        rotatedGrad_loop W basis state (rotated_sites (N W) basis) ys
          (?num, cadd den (den_term W tab basis state y)) tab"
    by (simp add: rotatedGrad_step_eq [OF lens cap bin cov inv Cons.prems])
  also have "\<dots> = (Returned (map (\<lambda>k. foldl cadd (?num ! k) (map (num_term W tab basis state k) ys)) [0..<npar W],
                foldl cadd (cadd den (den_term W tab basis state y)) (map (den_term W tab basis state) ys)), tab)"
    by (intro Cons.IH) simp
  finally show ?case by simp
qed

lemma rotatedGrad_eq:
  assumes lenb: "N W \<le> length basis" and lens: "N W \<le> length state"
    and cap: "length (rotated_sites (N W) basis) \<le> 16"
    and bin: "binary state" and cov: "covers tab (N W) basis"
    and inv: "npar W = Rbm_Npar (rbmAm W) + Rbm_Npar (rbmPh W)"
  shows "rotatedGrad W basis state tab = (Returned (rotated_gradient W tab basis state), tab)"
proof -
  have sites: "rotatedGrad_sites basis [0..<N W] [] = Returned (rotated_sites (N W) basis)"
    using lenb by (simp add: rotatedGrad_sites_eq rotated_sites_def)
  have num: "numerator W tab basis state k = foldl cadd (Some 0) (map (num_term W tab basis state k) [0..<2 ^ length (rotated_sites (N W) basis)])" for k
    unfolding numerator_def accumulate_def ..
  have den: "denominator W tab basis state = foldl cadd (Some 0) (map (den_term W tab basis state) [0..<2 ^ length (rotated_sites (N W) basis)])"
    unfolding denominator_def accumulate_def ..
  have loop: "rotatedGrad_loop W basis state (rotated_sites (N W) basis) [0..<2 ^ length (rotated_sites (N W) basis)]
        (replicate (npar W) (Some 0), Some 0) tab =
     (Returned (map (\<lambda>k. numerator W tab basis state k) [0..<npar W], denominator W tab basis state), tab)"
    unfolding num den
    by (subst rotatedGrad_loop_eq [OF lens cap bin cov inv]) simp_all
  show ?thesis
    using cap by (simp add: rotatedGrad_def sites loop rotated_gradient_def comp_def)
qed

lemma filter_upt_rank:
  "p < length (filter P [0..<n]) \<Longrightarrow> length (filter P [0..<filter P [0..<n] ! p]) = p"
proof (induction n)
  case 0
  then show ?case by simp
next
  case (Suc n)
  show ?case
  proof (cases "p < length (filter P [0..<n])")
    case True
    then show ?thesis using Suc.IH by (simp add: nth_append)
  next
    case False
    with Suc.prems have "P n" and "p = length (filter P [0..<n])"
      by (auto split: if_splits)
    then show ?thesis by (simp add: nth_append)
  qed
qed

lemma completion_bit:
  assumes "n \<le> length state" and "p < length (rotated_sites n basis)"
  shows "completion n basis state y ! (rotated_sites n basis ! p) = (if odd (y div 2 ^ p) then 1 else 0)"
proof -
  let ?j = "rotated_sites n basis ! p"
  have "?j \<in> set (rotated_sites n basis)" using assms(2) by simp
  then have j: "?j < n" "basis ! ?j \<noteq> ''Z''" by (simp_all add: rotated_sites_def)
  have rank: "length (rotated_sites ?j basis) = p"
    using assms(2) filter_upt_rank [of p "\<lambda>j. basis ! j \<noteq> ''Z''" n] by (simp add: rotated_sites_def)
  show ?thesis
    using j assms(1) by (simp add: completion_def rank)
qed

lemma completion_inj:
  assumes len: "n \<le> length state"
    and y1: "y1 < 2 ^ length (rotated_sites n basis)" and y2: "y2 < 2 ^ length (rotated_sites n basis)"
    and eq: "completion n basis state y1 = completion n basis state y2"
  shows "y1 = y2"
proof (rule bit_eqI)
  fix p
  show "bit y1 p = bit y2 p"
  proof (cases "p < length (rotated_sites n basis)")
    case True
    have "(if odd (y1 div 2 ^ p) then 1 else 0 :: real) = (if odd (y2 div 2 ^ p) then 1 else 0)"
      using completion_bit [OF len True, of y1] completion_bit [OF len True, of y2] eq by simp
    then have "odd (y1 div 2 ^ p) = odd (y2 div 2 ^ p)"
      by (simp split: if_splits)
    then show ?thesis by (simp add: bit_iff_odd)
  next
    case False
    then have le: "(2::nat) ^ length (rotated_sites n basis) \<le> 2 ^ p"
      by (intro power_increasing) simp_all
    have "y1 < 2 ^ p" by (rule less_le_trans [OF y1 le])
    moreover have "y2 < 2 ^ p" by (rule less_le_trans [OF y2 le])
    ultimately show ?thesis by (simp add: bit_iff_odd)
  qed
qed

lemma completion_distinct:
  "n \<le> length state \<Longrightarrow>
   distinct (map (completion n basis state) [0..<2 ^ length (rotated_sites n basis)])"
  by (auto simp: distinct_map intro!: inj_onI dest: completion_inj)

subsection \<open>rotatedGrad: the enumeration\<close>

text \<open>
  Where \<open>psi\<close> is a finite number at every completion, the accumulated denominator and
  numerator are the sums over the indices.
\<close>

lemma denominator_sum:
  assumes "\<forall>y<2 ^ length (rotated_sites (N W) basis). psi W (completion (N W) basis state y) = Some (f y)"
  shows "denominator W tab basis state =
     Some (\<Sum>y<2 ^ length (rotated_sites (N W) basis).
             rotation_amplitude tab (N W) basis state (completion (N W) basis state y) * f y)"
proof -
  let ?n = "2 ^ length (rotated_sites (N W) basis) :: nat"
  let ?g = "\<lambda>y. rotation_amplitude tab (N W) basis state (completion (N W) basis state y) * f y"
  have "map (den_term W tab basis state) [0..<?n] = map Some (map ?g [0..<?n])"
    using assms by (simp add: den_term_def cmul_def)
  then have "denominator W tab basis state = Some (sum_list (map ?g [0..<?n]))"
    by (simp only: denominator_def accumulate_Some)
  also have "sum_list (map ?g [0..<?n]) = sum ?g {..<?n}"
    by (simp add: interv_sum_list_conv_sum_set_nat lessThan_atLeast0)
  finally show ?thesis .
qed

lemma numerator_sum:
  assumes "\<forall>y<2 ^ length (rotated_sites (N W) basis). psi W (completion (N W) basis state y) = Some (f y)"
  shows "numerator W tab basis state k =
     Some (\<Sum>y<2 ^ length (rotated_sites (N W) basis).
             rotation_amplitude tab (N W) basis state (completion (N W) basis state y) *
             complex_of_real (plain_gradient W (completion (N W) basis state y) ! k) * f y)"
proof -
  let ?n = "2 ^ length (rotated_sites (N W) basis) :: nat"
  let ?g = "\<lambda>y. rotation_amplitude tab (N W) basis state (completion (N W) basis state y) *
             complex_of_real (plain_gradient W (completion (N W) basis state y) ! k) * f y"
  have "map (num_term W tab basis state k) [0..<?n] = map Some (map ?g [0..<?n])"
    using assms by (simp add: num_term_def cmul_def)
  then have "numerator W tab basis state k = Some (sum_list (map ?g [0..<?n]))"
    by (simp only: numerator_def accumulate_Some)
  also have "sum_list (map ?g [0..<?n]) = sum ?g {..<?n}"
    by (simp add: interv_sum_list_conv_sum_set_nat lessThan_atLeast0)
  finally show ?thesis .
qed

text \<open>
  C1 (as amended). For a basis descriptor and a measured outcome of length \<open>N\<close>, the
  outcome's entries 0 or 1, a table with a matrix of two rows and two columns for the
  label of every rotated site, and at most 16 rotated sites (\<open>npar_\<close> being the sum of
  the two models' parameter counts, as the constructor sets it): \<open>rotatedGrad\<close> returns,
  with the table unchanged, the quotient of the numerator and the denominator that are
  accumulated over the indices \<open>0..2\<^sup>t-1\<close>, each index \<open>y\<close> contributing
  \<open>U(y) \<cdot> Grad(v\<^sub>y) \<cdot> psi(v\<^sub>y)\<close> and \<open>U(y) \<cdot> psi(v\<^sub>y)\<close> for its completion \<open>v\<^sub>y\<close>; the \<open>2\<^sup>t\<close>
  completions are pairwise different.
\<close>

theorem rotatedGrad_enumerates:
  assumes "length basis = N W" and "length state = N W" and "binary state"
    and "covers Unitaries (N W) basis"
    and "length (rotated_sites (N W) basis) \<le> 16"
    and "npar W = Rbm_Npar (rbmAm W) + Rbm_Npar (rbmPh W)"
  shows "rotatedGrad W basis state Unitaries =
           (Returned (rotated_gradient W Unitaries basis state), Unitaries) \<and>
         distinct (map (completion (N W) basis state) [0..<2 ^ length (rotated_sites (N W) basis)])"
  using assms by (simp add: rotatedGrad_eq completion_distinct)

lemma upt_2: "[0..<2] = [0, Suc 0]"
  by (simp add: upt_rec numeral_2_eq_2)

lemma site_rotated: "rotated_sites 2 [''Z'', ''X''] = [Suc 0]"
  by (simp add: rotated_sites_def upt_2)

theorem rotatedGrad_enumerates_witness:
  "length [''Z'', ''X''] = N site_W \<and> length [0, 0 :: real] = N site_W \<and> binary [0, 0] \<and>
   covers example_table (N site_W) [''Z'', ''X''] \<and>
   length (rotated_sites (N site_W) [''Z'', ''X'']) \<le> 16 \<and>
   npar site_W = Rbm_Npar (rbmAm site_W) + Rbm_Npar (rbmPh site_W) \<and>
   rotated_gradient site_W example_table [''Z'', ''X''] [0, 0] = [Some (9/5), Some 1] \<and>
   rotatedGrad site_W [''Z'', ''X''] [0, 0] example_table = (Returned [Some (9/5), Some 1], example_table) \<and>
   map (completion (N site_W) [''Z'', ''X''] [0, 0]) [0..<2 ^ length (rotated_sites (N site_W) [''Z'', ''X''])] =
     [[0, 0], [0, 1]]"
proof -
  have n: "N site_W = 2" "npar site_W = 2" by (simp_all add: site_W_def)
  have h1: "length [''Z'', ''X''] = N site_W" and h2: "length [0, 0 :: real] = N site_W"
    by (simp_all add: n)
  have h3: "binary [0, 0]" by (simp add: binary_def)
  have h4: "covers example_table (N site_W) [''Z'', ''X'']"
    by (simp add: n covers_def site_rotated example_table_def two_by_two_def rectangular_def rows_def cols_def)
  have h5: "length (rotated_sites (N site_W) [''Z'', ''X'']) \<le> 16"
    by (simp add: n site_rotated)
  have h6: "npar site_W = Rbm_Npar (rbmAm site_W) + Rbm_Npar (rbmPh site_W)"
    by (simp add: site_W_def site_rbm_def example_rbm_def Rbm_Npar_def)
  have c0: "completion 2 [''Z'', ''X''] [0, 0] 0 = [0, 0]"
    and c1: "completion 2 [''Z'', ''X''] [0, 0] (Suc 0) = [0, 1]"
    by (simp_all add: completion_def upt_2 rotated_sites_def)
  have u0: "rotation_amplitude example_table 2 [''Z'', ''X''] [0, 0] [0, 0] = 1"
    and u1: "rotation_amplitude example_table 2 [''Z'', ''X''] [0, 0] [0, 1] = 2"
    by (simp_all add: rotation_amplitude_def site_rotated table_entry_def example_table_def)
  have p0: "psi site_W [0, 0] = Some 1" and p1: "psi site_W [0, 1] = Some 2"
    by (simp_all add: psi_def amplitude_def phase_def sqrt_double_def log_double_def Rbm_prob_def
        site_W_def site_rbm_def example_rbm_def)
  have g0: "plain_gradient site_W [0, 0] = [1, 1]" and g1: "plain_gradient site_W [0, 1] = [2, 1]"
    by (simp_all add: plain_gradient_def Rbm_VisEnergyGrad_def Rbm_Npar_def
        site_W_def site_rbm_def example_rbm_def)
  have d: "denominator site_W example_table [''Z'', ''X''] [0, 0] = Some 5"
    by (simp add: denominator_def den_term_def accumulate_def n site_rotated upt_2 c0 c1 u0 u1 p0 p1 cmul_def cadd_def)
  have n0: "numerator site_W example_table [''Z'', ''X''] [0, 0] 0 = Some 9"
    by (simp add: numerator_def num_term_def accumulate_def n site_rotated upt_2 c0 c1 u0 u1 p0 p1 g0 g1 cmul_def cadd_def)
  have n1: "numerator site_W example_table [''Z'', ''X''] [0, 0] (Suc 0) = Some 5"
    by (simp add: numerator_def num_term_def accumulate_def n site_rotated upt_2 c0 c1 u0 u1 p0 p1 g0 g1 cmul_def cadd_def)
  have r: "rotated_gradient site_W example_table [''Z'', ''X''] [0, 0] = [Some (9/5), Some 1]"
    by (simp add: rotated_gradient_def n upt_2 d n0 n1 cdiv_def)
  have m: "map (completion (N site_W) [''Z'', ''X''] [0, 0]) [0..<2 ^ length (rotated_sites (N site_W) [''Z'', ''X''])] =
     [[0, 0], [0, 1]]"
    by (simp add: n site_rotated upt_2 c0 c1)
  show ?thesis
    using rotatedGrad_enumerates [OF h1 h2 h3 h4 h5 h6] h1 h2 h3 h4 h5 h6 r m by simp
qed

lemma rotated_sites_all: "\<forall>j<n. basis ! j \<noteq> ''Z'' \<Longrightarrow> rotated_sites n basis = [0..<n]"
  by (simp add: rotated_sites_def)

lemma rotated_sites_replicate_X: "m \<le> n \<Longrightarrow> rotated_sites m (replicate n ''X'') = [0..<m]"
  by (simp add: rotated_sites_all)

subsection \<open>rotatedGrad: more than sixteen rotated sites\<close>

lemma rotatedGrad_v_over:
  "n - a = m \<Longrightarrow> a \<le> n \<Longrightarrow> n \<le> length v \<Longrightarrow> c \<le> 16 \<Longrightarrow>
   16 < c + length (filter (\<lambda>j. basis ! j \<noteq> ''Z'') [a..<n]) \<Longrightarrow>
   rotatedGrad_v basis b [a..<n] c v = Undefined BitsetIndex"
proof (induction m arbitrary: a c v)
  case 0
  then show ?case by simp
next
  case (Suc m)
  from Suc.prems have an: "a < n" and m: "n - Suc a = m" and le: "Suc a \<le> n" by simp_all
  have up: "[a..<n] = a # [Suc a..<n]" using an by (simp add: upt_conv_Cons)
  show ?case
  proof (cases "basis ! a \<noteq> ''Z''")
    case rot: True
    show ?thesis
    proof (cases "c < 16")
      case True
      have "rotatedGrad_v basis b [Suc a..<n] (Suc c) (v[a := (if odd (b div 2 ^ c) then 1 else 0)]) =
            Undefined BitsetIndex"
        using Suc.prems rot True by (intro Suc.IH [OF m le]) (simp_all add: up)
      then show ?thesis
        unfolding up using rot True an Suc.prems(3) by (simp add: bitset_test_def)
    next
      case False
      then show ?thesis unfolding up using rot by (simp add: bitset_test_def)
    qed
  next
    case False
    have "rotatedGrad_v basis b [Suc a..<n] c v = Undefined BitsetIndex"
      using Suc.prems False by (intro Suc.IH [OF m le]) (simp_all add: up)
    then show ?thesis unfolding up using False by simp
  qed
qed

lemma upt_pow_Cons: "[0..<2 ^ t] = 0 # [Suc 0..<2 ^ t]"
  by (simp add: upt_conv_Cons)

lemma rotatedGrad_over_capacity:
  assumes lenb: "N W \<le> length basis" and lens: "N W \<le> length state"
    and over: "16 < length (rotated_sites (N W) basis)"
  shows "rotatedGrad W basis state tab =
     (Undefined (if 31 \<le> length (rotated_sites (N W) basis) then ShiftOverflow else BitsetIndex), tab)"
proof -
  have sites: "rotatedGrad_sites basis [0..<N W] [] = Returned (rotated_sites (N W) basis)"
    using lenb by (simp add: rotatedGrad_sites_eq rotated_sites_def)
  have v: "rotatedGrad_v basis (bitset16 0) [0..<N W] 0 state = Undefined BitsetIndex"
    using lens over by (intro rotatedGrad_v_over [OF refl]) (simp_all add: rotated_sites_def)
  have "rotatedGrad_loop W basis state (rotated_sites (N W) basis) [0..<2 ^ length (rotated_sites (N W) basis)]
          (replicate (npar W) (Some 0), Some 0) tab = (Undefined BitsetIndex, tab)"
    by (subst upt_pow_Cons) (simp add: rotatedGrad_step_def rotatedGrad_vU_def v)
  then show ?thesis
    by (simp add: rotatedGrad_def sites)
qed

text \<open>
  The claim as it was stated, for every basis descriptor, fails with 17 rotated sites:
  in the first pass of the loop the 17th rotated site reads \<open>bit[16]\<close> of a
  \<open>std::bitset<16>\<close>, and the call does not return the quotient.
\<close>

theorem rotatedGrad_capacity_counterexample:
  "length (replicate 17 ''X'') = N (example_W 17 1 1) \<and>
   length (replicate 17 (0::real)) = N (example_W 17 1 1) \<and>
   binary (replicate 17 0) \<and>
   covers example_table (N (example_W 17 1 1)) (replicate 17 ''X'') \<and>
   length (rotated_sites (N (example_W 17 1 1)) (replicate 17 ''X'')) = 17 \<and>
   rotatedGrad (example_W 17 1 1) (replicate 17 ''X'') (replicate 17 0) example_table =
     (Undefined BitsetIndex, example_table) \<and>
   rotatedGrad (example_W 17 1 1) (replicate 17 ''X'') (replicate 17 0) example_table \<noteq>
     (Returned (rotated_gradient (example_W 17 1 1) example_table (replicate 17 ''X'') (replicate 17 0)),
      example_table)"
proof -
  have r: "rotated_sites 17 (replicate 17 ''X'') = [0..<17]"
    by (rule rotated_sites_replicate_X) simp
  have c: "covers example_table 17 (replicate 17 ''X'')"
    unfolding covers_def r
    by (simp add: list_all_iff example_table_def two_by_two_def rectangular_def rows_def cols_def)
  have b: "binary (replicate 17 0)" by (simp add: binary_def list_all_iff)
  have u: "rotatedGrad (example_W 17 1 1) (replicate 17 ''X'') (replicate 17 0) example_table =
     (Undefined BitsetIndex, example_table)"
    by (subst rotatedGrad_over_capacity) (simp_all add: example_W_sizes r)
  show ?thesis
    unfolding u by (simp add: example_W_sizes r b c)
qed

text \<open>
  C4 (as amended). For a basis descriptor and a state of length \<open>N\<close> with more than 16
  rotated sites, \<open>rotatedGrad\<close> detects and reports nothing: the first loop counts the
  sites to its end, and the call goes on to a step that C++ leaves undefined, the shift
  \<open>1<<t\<close> when \<open>t\<close> is 31 or more, and otherwise the read of \<open>bit[16]\<close> in the first pass
  of the enumeration; the table is as it was.
\<close>

theorem rotatedGrad_no_capacity_check:
  assumes "length basis = N W" and "length state = N W"
    and "16 < length (rotated_sites (N W) basis)"
  shows "rotatedGrad_sites basis [0..<N W] [] = Returned (rotated_sites (N W) basis) \<and>
         rotatedGrad W basis state Unitaries =
           (Undefined (if 31 \<le> length (rotated_sites (N W) basis) then ShiftOverflow else BitsetIndex),
            Unitaries)"
  using assms by (simp add: rotatedGrad_over_capacity rotatedGrad_sites_eq rotated_sites_def)

theorem rotatedGrad_no_capacity_check_witness:
  "length (replicate 32 ''X'') = N (example_W 32 1 1) \<and>
   length (replicate 32 (0::real)) = N (example_W 32 1 1) \<and>
   16 < length (rotated_sites (N (example_W 32 1 1)) (replicate 32 ''X'')) \<and>
   rotatedGrad (example_W 32 1 1) (replicate 32 ''X'') (replicate 32 0) example_table =
     (Undefined ShiftOverflow, example_table) \<and>
   length (replicate 20 ''X'') = N (example_W 20 1 1) \<and>
   length (replicate 20 (0::real)) = N (example_W 20 1 1) \<and>
   16 < length (rotated_sites (N (example_W 20 1 1)) (replicate 20 ''X'')) \<and>
   rotatedGrad (example_W 20 1 1) (replicate 20 ''X'') (replicate 20 0) example_table =
     (Undefined BitsetIndex, example_table)"
proof -
  have r': "rotated_sites 20 (replicate 20 ''X'') = [0..<20]"
    by (rule rotated_sites_replicate_X) simp
  have k1: "length (replicate 20 ''X'') = N (example_W 20 1 1)"
    and k2: "length (replicate 20 (0::real)) = N (example_W 20 1 1)"
    and k3: "16 < length (rotated_sites (N (example_W 20 1 1)) (replicate 20 ''X''))"
    by (simp_all add: example_W_sizes r')
  have r: "rotated_sites 32 (replicate 32 ''X'') = [0..<32]"
    by (rule rotated_sites_replicate_X) simp
  have h1: "length (replicate 32 ''X'') = N (example_W 32 1 1)"
    and h2: "length (replicate 32 (0::real)) = N (example_W 32 1 1)"
    and h3: "16 < length (rotated_sites (N (example_W 32 1 1)) (replicate 32 ''X''))"
    by (simp_all add: example_W_sizes r)
  show ?thesis
    using rotatedGrad_no_capacity_check [OF h1 h2 h3, of example_table] h1 h2 h3
      rotatedGrad_no_capacity_check [OF k1 k2 k3, of example_table] k1 k2 k3
    by (simp add: example_W_sizes r r')
qed

lemma rotated_sites_Z_X: "rotated_sites (Suc n) (''Z'' # replicate n ''X'') = [Suc 0..<Suc n]"
proof -
  have a: "[0..<Suc n] = 0 # [Suc 0..<Suc n]"
    by (rule upt_conv_Cons) simp
  have b: "filter (\<lambda>j. (''Z'' # replicate n ''X'') ! j \<noteq> ''Z'') [Suc 0..<Suc n] = [Suc 0..<Suc n]"
    by (rule filter_True) (auto simp: nth_Cons')
  show ?thesis
    unfolding rotated_sites_def a by (simp add: b del: upt_Suc)
qed

text \<open>
  The claim as it was stated fails at 18 sites of which 17 are rotated: the count of the
  rotated sites completes, no check follows it, and the enumeration starts.
\<close>

theorem rotatedGrad_unchecked_counterexample:
  "length (''Z'' # replicate 17 ''X'') = N (example_W 18 1 1) \<and>
   length (rotated_sites (N (example_W 18 1 1)) (''Z'' # replicate 17 ''X'')) = 17 \<and>
   rotatedGrad_sites (''Z'' # replicate 17 ''X'') [0..<N (example_W 18 1 1)] [] = Returned [1..<18] \<and>
   rotatedGrad (example_W 18 1 1) (''Z'' # replicate 17 ''X'') (replicate 18 0) example_table =
     (Undefined BitsetIndex, example_table)"
proof -
  have r: "rotated_sites 18 (''Z'' # replicate 17 ''X'') = [Suc 0..<18]"
    using rotated_sites_Z_X [of 17] by (simp del: upt_Suc)
  have s: "rotatedGrad_sites (''Z'' # replicate 17 ''X'') [0..<18] [] = Returned [Suc 0..<18]"
    by (subst rotatedGrad_sites_eq) (simp_all add: r [unfolded rotated_sites_def])
  have u: "rotatedGrad (example_W 18 1 1) (''Z'' # replicate 17 ''X'') (replicate 18 0) example_table =
     (Undefined BitsetIndex, example_table)"
    by (subst rotatedGrad_over_capacity) (simp_all add: example_W_sizes r)
  show ?thesis
    unfolding u by (simp add: example_W_sizes r s)
qed

subsection \<open>rotatedGrad: a denominator of zero\<close>

lemma cdiv_zero: "cdiv a (Some 0) = None"
  by (simp add: cdiv_def split: option.split)

text \<open>
  C2 (as amended). For a basis descriptor and a binary state of length \<open>N\<close>, a table
  with a matrix of two rows and two columns for the label of every rotated site, and
  at most 16 rotated sites: when the accumulated denominator is zero, \<open>rotatedGrad\<close>
  divides all the same and returns; every entry of \<open>gradR\<close> is a value that is not
  finite (a NaN or an infinity), and no error is signalled.
\<close>

theorem rotatedGrad_zero_denominator:
  assumes "length basis = N W" and "length state = N W" and "binary state"
    and "covers Unitaries (N W) basis"
    and "length (rotated_sites (N W) basis) \<le> 16"
    and "npar W = Rbm_Npar (rbmAm W) + Rbm_Npar (rbmPh W)"
    and "denominator W Unitaries basis state = Some 0"
  shows "rotatedGrad W basis state Unitaries = (Returned (replicate (npar W) None), Unitaries)"
proof -
  have "rotated_gradient W Unitaries basis state = replicate (npar W) None"
    by (simp add: rotated_gradient_def assms(7) cdiv_zero map_replicate_const)
  then show ?thesis
    using assms by (simp add: rotatedGrad_eq)
qed

lemma site_facts_zero:
  "completion 2 [''Z'', ''X''] [0, 0] 0 = [0, 0]"
  "completion 2 [''Z'', ''X''] [0, 0] (Suc 0) = [0, 1]"
  by (simp_all add: completion_def upt_2 rotated_sites_def)

theorem rotatedGrad_zero_denominator_witness:
  "length [''Z'', ''X''] = N (example_W 2 0 1) \<and> length [0, 0 :: real] = N (example_W 2 0 1) \<and>
   binary [0, 0] \<and> covers example_table (N (example_W 2 0 1)) [''Z'', ''X''] \<and>
   length (rotated_sites (N (example_W 2 0 1)) [''Z'', ''X'']) \<le> 16 \<and>
   npar (example_W 2 0 1) = Rbm_Npar (rbmAm (example_W 2 0 1)) + Rbm_Npar (rbmPh (example_W 2 0 1)) \<and>
   denominator (example_W 2 0 1) example_table [''Z'', ''X''] [0, 0] = Some 0 \<and>
   rotatedGrad (example_W 2 0 1) [''Z'', ''X''] [0, 0] example_table = (Returned [None, None], example_table)"
proof -
  note n = example_W_sizes
  have h1: "length [''Z'', ''X''] = N (example_W 2 0 1)"
    and h2: "length [0, 0 :: real] = N (example_W 2 0 1)"
    by (simp_all add: n)
  have h3: "binary [0, 0]" by (simp add: binary_def)
  have h4: "covers example_table (N (example_W 2 0 1)) [''Z'', ''X'']"
    by (simp add: n covers_def site_rotated example_table_def two_by_two_def rectangular_def rows_def cols_def)
  have h5: "length (rotated_sites (N (example_W 2 0 1)) [''Z'', ''X'']) \<le> 16"
    by (simp add: n site_rotated)
  have h6: "npar (example_W 2 0 1) = Rbm_Npar (rbmAm (example_W 2 0 1)) + Rbm_Npar (rbmPh (example_W 2 0 1))"
    by (simp add: n)
  have h7: "denominator (example_W 2 0 1) example_table [''Z'', ''X''] [0, 0] = Some 0"
    by (simp add: denominator_def den_term_def accumulate_def n site_rotated upt_2 site_facts_zero
        example_W_psi_zero cmul_def cadd_def)
  show ?thesis
    using rotatedGrad_zero_denominator [OF h1 h2 h3 h4 h5 h6 h7] h1 h2 h3 h4 h5 h6 h7
    by (simp add: n numeral_2_eq_2)
qed

text \<open>
  The claim as it was stated fails where the amplitude model gives the measured outcome
  the value 0: the denominator is 0 and the call returns a gradient of NaNs.
\<close>

theorem rotatedGrad_nan_counterexample:
  "denominator (example_W 1 0 1) empty_table [''Z''] [0] = Some 0 \<and>
   rotatedGrad (example_W 1 0 1) [''Z''] [0] empty_table = (Returned [None, None], empty_table)"
proof -
  have r: "rotated_sites (Suc 0) [''Z''] = []" by (simp add: rotated_sites_def)
  note n = example_W_sizes
  have d: "denominator (example_W 1 0 1) empty_table [''Z''] [0] = Some 0"
    by (simp add: denominator_def den_term_def accumulate_def n r example_W_psi_zero cmul_def cadd_def)
  have "rotatedGrad (example_W 1 0 1) [''Z''] [0] empty_table = (Returned [None, None], empty_table)"
    by (simp add: rotatedGrad_def n rotatedGrad_step_def rotatedGrad_vU_def example_W_psi_zero example_W_Grad
        cmul_def cadd_def cdiv_def numeral_2_eq_2)
  with d show ?thesis by simp
qed

subsection \<open>rotatedGrad: the lookups in the table\<close>

lemma rotatedGrad_U_table:
  "\<forall>k\<in>set ks. tab (basis ! k) \<noteq> None \<Longrightarrow> snd (rotatedGrad_U basis state v ks U tab) = tab"
proof (induction ks arbitrary: U)
  case Nil
  then show ?case by simp
next
  case (Cons k ks)
  then obtain M where M: "tab (basis ! k) = Some M" by auto
  show ?case
    using Cons by (simp add: map_subscript_def M split: outcome.split)
qed

lemma rotatedGrad_step_table:
  assumes "\<forall>k\<in>set ks. tab (basis ! k) \<noteq> None"
  shows "snd (rotatedGrad_step W basis state ks i acc tab) = tab"
proof (cases "rotatedGrad_v basis (bitset16 i) [0..<N W] 0 state")
  case (Undefined u)
  then show ?thesis by (simp add: rotatedGrad_step_def rotatedGrad_vU_def)
next
  case (Returned v)
  obtain r where "rotatedGrad_U basis state v ks 1 tab = (r, tab)"
    using rotatedGrad_U_table [OF assms, of state v 1] by (metis prod.collapse)
  then show ?thesis
    by (simp add: rotatedGrad_step_def rotatedGrad_vU_def Returned split: outcome.split)
qed

lemma rotatedGrad_loop_table:
  "\<forall>k\<in>set ks. tab (basis ! k) \<noteq> None \<Longrightarrow> snd (rotatedGrad_loop W basis state ks ys acc tab) = tab"
proof (induction ys arbitrary: acc)
  case Nil
  then show ?case by simp
next
  case (Cons y ys)
  obtain r where "rotatedGrad_step W basis state ks y acc tab = (r, tab)"
    using rotatedGrad_step_table [OF Cons.prems, of W state y acc] by (metis prod.collapse)
  then show ?case
    using Cons by (simp split: outcome.split)
qed

lemma rotatedGrad_table:
  assumes "N W \<le> length basis" and "\<forall>k\<in>set (rotated_sites (N W) basis). tab (basis ! k) \<noteq> None"
  shows "snd (rotatedGrad W basis state tab) = tab"
proof -
  have sites: "rotatedGrad_sites basis [0..<N W] [] = Returned (rotated_sites (N W) basis)"
    using assms(1) by (simp add: rotatedGrad_sites_eq rotated_sites_def)
  obtain r where "rotatedGrad_loop W basis state (rotated_sites (N W) basis)
        [0..<2 ^ length (rotated_sites (N W) basis)] (replicate (npar W) (Some 0), Some 0) tab = (r, tab)"
    using rotatedGrad_loop_table [OF assms(2), of W state "[0..<2 ^ length (rotated_sites (N W) basis)]"
        "(replicate (npar W) (Some 0), Some 0)"] by (metis prod.collapse)
  then show ?thesis
    by (simp add: rotatedGrad_def sites Let_def split: outcome.split prod.split)
qed

lemma unitary_element_empty:
  assumes "k < length state" "k < length v" "state ! k = 0 \<or> state ! k = 1" "v ! k = 0 \<or> v ! k = 1"
  shows "unitary_element [] state v k = Undefined EigenIndex"
  using assms
  by (simp add: unitary_element_def vcoeff_def bind_outcome_def int_of_double_binary coeff_def rows_def)

lemma rotatedGrad_U_missing:
  assumes "find (\<lambda>k. tab (basis ! k) = None) ks = Some k0"
    and "\<forall>k\<in>set ks. k < length state \<and> k < length v \<and> (state ! k = 0 \<or> state ! k = 1) \<and>
             (v ! k = 0 \<or> v ! k = 1) \<and> (\<forall>M. tab (basis ! k) = Some M \<longrightarrow> rows M = 2 \<and> cols M = 2)"
  shows "rotatedGrad_U basis state v ks U tab = (Undefined EigenIndex, tab(basis ! k0 \<mapsto> []))"
  using assms
proof (induction ks arbitrary: U)
  case Nil
  then show ?case by simp
next
  case (Cons k ks)
  show ?case
  proof (cases "tab (basis ! k)")
    case None
    then have k0: "k0 = k" using Cons.prems(1) by simp
    have ms: "map_subscript tab (basis ! k) = ([], tab(basis ! k \<mapsto> []))"
      using None by (simp add: map_subscript_def)
    have el: "unitary_element [] state v k = Undefined EigenIndex"
      using Cons.prems(2) by (intro unitary_element_empty) simp_all
    show ?thesis
      unfolding k0 by (simp only: rotatedGrad_U.simps ms el prod.case outcome.case)
  next
    case (Some M)
    then have f: "find (\<lambda>k. tab (basis ! k) = None) ks = Some k0"
      using Cons.prems(1) by simp
    have el: "unitary_element M state v k = Returned (M ! nat \<lfloor>state ! k\<rfloor> ! nat \<lfloor>v ! k\<rfloor>)"
      using Cons.prems(2) Some by (intro unitary_element_binary) simp_all
    show ?thesis
      using Cons.IH [OF f] Cons.prems(2) by (simp add: map_subscript_def Some el)
  qed
qed

lemma rotatedGrad_missing:
  assumes lenb: "N W \<le> length basis" and lens: "N W \<le> length state"
    and cap: "length (rotated_sites (N W) basis) \<le> 16"
    and bin: "binary state"
    and two: "\<forall>k\<in>set (rotated_sites (N W) basis). \<forall>M. tab (basis ! k) = Some M \<longrightarrow> rows M = 2 \<and> cols M = 2"
    and miss: "find (\<lambda>k. tab (basis ! k) = None) (rotated_sites (N W) basis) = Some k0"
  shows "rotatedGrad W basis state tab = (Undefined EigenIndex, tab(basis ! k0 \<mapsto> []))"
proof -
  let ?v = "completion (N W) basis state 0"
  have sites: "rotatedGrad_sites basis [0..<N W] [] = Returned (rotated_sites (N W) basis)"
    using lenb by (simp add: rotatedGrad_sites_eq rotated_sites_def)
  have v: "rotatedGrad_v basis (bitset16 0) [0..<N W] 0 state = Returned ?v"
    by (rule rotatedGrad_v_completion [OF lens cap])
  have "\<forall>k\<in>set (rotated_sites (N W) basis). k < length state \<and> k < length ?v \<and>
          (state ! k = 0 \<or> state ! k = 1) \<and> (?v ! k = 0 \<or> ?v ! k = 1) \<and>
          (\<forall>M. tab (basis ! k) = Some M \<longrightarrow> rows M = 2 \<and> cols M = 2)"
  proof
    fix k assume k: "k \<in> set (rotated_sites (N W) basis)"
    then have kn: "k < N W" and rot: "basis ! k \<noteq> ''Z''" by (simp_all add: rotated_sites_def)
    then have kl: "k < length state" using lens by simp
    show "k < length state \<and> k < length ?v \<and>
          (state ! k = 0 \<or> state ! k = 1) \<and> (?v ! k = 0 \<or> ?v ! k = 1) \<and>
          (\<forall>M. tab (basis ! k) = Some M \<longrightarrow> rows M = 2 \<and> cols M = 2)"
      using kl kn rot binary_nth [OF bin kl] two k by (simp add: completion_def)
  qed
  then have U: "rotatedGrad_U basis state ?v (rotated_sites (N W) basis) 1 tab =
      (Undefined EigenIndex, tab(basis ! k0 \<mapsto> []))"
    by (rule rotatedGrad_U_missing [OF miss])
  have "rotatedGrad_loop W basis state (rotated_sites (N W) basis) [0..<2 ^ length (rotated_sites (N W) basis)]
          (replicate (npar W) (Some 0), Some 0) tab = (Undefined EigenIndex, tab(basis ! k0 \<mapsto> []))"
    by (subst upt_pow_Cons) (simp add: rotatedGrad_step_def rotatedGrad_vU_def v U)
  then show ?thesis
    using cap by (simp add: rotatedGrad_def sites)
qed

text \<open>
  C3 (as amended). For a basis descriptor and a binary state of length \<open>N\<close> with at most
  16 rotated sites, and a table whose matrices have two rows and two columns: when the
  label of every rotated site has an entry, the call leaves the table unchanged; when
  some label has none, the lookup of the first such label, in site order, inserts an
  empty matrix under it, the access to an element of that matrix is outside its size,
  and nothing is reported.
\<close>

theorem rotatedGrad_table_lookup:
  assumes "length basis = N W" and "length state = N W" and "binary state"
    and "length (rotated_sites (N W) basis) \<le> 16"
    and "\<forall>k\<in>set (rotated_sites (N W) basis). \<forall>M. Unitaries (basis ! k) = Some M \<longrightarrow> two_by_two M"
  shows "((\<forall>k\<in>set (rotated_sites (N W) basis). Unitaries (basis ! k) \<noteq> None) \<longrightarrow>
            snd (rotatedGrad W basis state Unitaries) = Unitaries) \<and>
         (\<forall>k0. find (\<lambda>k. Unitaries (basis ! k) = None) (rotated_sites (N W) basis) = Some k0 \<longrightarrow>
            rotatedGrad W basis state Unitaries = (Undefined EigenIndex, Unitaries(basis ! k0 \<mapsto> [])))"
  using assms by (simp add: rotatedGrad_table rotatedGrad_missing two_by_two_def)

theorem rotatedGrad_table_lookup_witness:
  "snd (rotatedGrad site_W [''Z'', ''X''] [0, 0] example_table) = example_table \<and>
   find (\<lambda>k. empty_table ([''Z'', ''X''] ! k) = None) (rotated_sites (N site_W) [''Z'', ''X'']) = Some 1 \<and>
   rotatedGrad site_W [''Z'', ''X''] [0, 0] empty_table = (Undefined EigenIndex, empty_table(''X'' \<mapsto> []))"
proof -
  have n: "N site_W = 2" by (simp add: site_W_def)
  have h1: "length [''Z'', ''X''] = N site_W" and h2: "length [0, 0 :: real] = N site_W"
    by (simp_all add: n)
  have h3: "binary [0, 0]" by (simp add: binary_def)
  have h4: "length (rotated_sites (N site_W) [''Z'', ''X'']) \<le> 16"
    by (simp add: n site_rotated)
  have h5: "\<forall>k\<in>set (rotated_sites (N site_W) [''Z'', ''X'']).
      \<forall>M. example_table ([''Z'', ''X''] ! k) = Some M \<longrightarrow> two_by_two M"
    by (simp add: n site_rotated example_table_def two_by_two_def rectangular_def rows_def cols_def)
  have h5': "\<forall>k\<in>set (rotated_sites (N site_W) [''Z'', ''X'']).
      \<forall>M. empty_table ([''Z'', ''X''] ! k) = Some M \<longrightarrow> two_by_two M"
    by (simp add: n site_rotated empty_table_def)
  have p: "\<forall>k\<in>set (rotated_sites (N site_W) [''Z'', ''X'']). example_table ([''Z'', ''X''] ! k) \<noteq> None"
    by (simp add: n site_rotated example_table_def)
  have f: "find (\<lambda>k. empty_table ([''Z'', ''X''] ! k) = None) (rotated_sites (N site_W) [''Z'', ''X'']) = Some 1"
    by (simp add: n site_rotated empty_table_def)
  show ?thesis
    using rotatedGrad_table_lookup [OF h1 h2 h3 h4 h5] rotatedGrad_table_lookup [OF h1 h2 h3 h4 h5'] p f
    by simp
qed

text \<open>
  The claim as it was stated fails for the label \<open>"X"\<close> and an empty table: the table
  holds an entry for \<open>"X"\<close> afterwards.
\<close>

theorem rotatedGrad_inserts_counterexample:
  "empty_table ''X'' = None \<and>
   rotatedGrad (example_W 1 1 1) [''X''] [0] empty_table = (Undefined EigenIndex, empty_table(''X'' \<mapsto> [])) \<and>
   snd (rotatedGrad (example_W 1 1 1) [''X''] [0] empty_table) ''X'' = Some []"
proof -
  note n = example_W_sizes
  have r: "rotated_sites (Suc 0) [''X''] = [0]" by (simp add: rotated_sites_def)
  have "rotatedGrad (example_W 1 1 1) [''X''] [0] empty_table = (Undefined EigenIndex, empty_table(''X'' \<mapsto> []))"
    by (subst rotatedGrad_missing [where ?k0.0 = 0])
       (simp_all add: n r binary_def empty_table_def)
  then show ?thesis by (simp add: empty_table_def)
qed

end
